theory Spec2Isabelle
  imports Complex_Main "HOL-Library.Word" "HOL-Library.Sublist"
begin

unbundle bit_operations_syntax

section \<open>Embedding of the route planner\<close>

text \<open>
  The planner is Python. Its unbounded integers are \<^typ>\<open>int\<close>, its floats are read as
  ideal real numbers (\<^typ>\<open>real\<close>: no rounding, no overflow, no NaN), its strings are
  \<^typ>\<open>string\<close> (one \<^typ>\<open>char\<close> per character, codes 0 to 255), and every exception that a
  modelled function can raise is a value of \<open>py_error\<close> on the left of a sum.
\<close>

datatype py_error = IndexError | ValueError | ZeroDivisionError

subsection \<open>\<open>planner/utils.py\<close>: the polyline decoder\<close>

text \<open>
  The inner \<open>while True\<close> loop of \<open>decode_polyline\<close>. The string argument is the part of
  \<open>polyline\<close> from \<open>index\<close> on, so reading \<open>polyline[index]\<close> past the end, which raises
  \<open>IndexError\<close> in Python, is the first equation. The loop occurs twice in the source, with
  the same text, once for the latitude and once for the longitude.
\<close>

fun read_chunks :: "string \<Rightarrow> nat \<Rightarrow> int \<Rightarrow> py_error + (int \<times> string)" where
  "read_chunks [] shift result = Inl IndexError"
| "read_chunks (c # cs) shift result =
     (let b = int (of_char c) - 63;
          result' = result OR push_bit shift (b AND 31)
      in if b < 32 then Inr (result', cs) else read_chunks cs (shift + 5) result')"

text \<open>\<open>if result & 1: result = ~(result >> 1) else: result = result >> 1\<close>\<close>

definition unzigzag :: "int \<Rightarrow> int" where
  "unzigzag result =
     (if result AND 1 \<noteq> 0 then NOT (drop_bit 1 result) else drop_bit 1 result)"

lemma read_chunks_length:
  "read_chunks s shift result = Inr (r, rest) \<Longrightarrow> length rest < length s"
proof (induction s arbitrary: shift result)
  case Nil
  then show ?case by simp
next
  case (Cons c cs)
  show ?case
  proof (cases "int (of_char c) - 63 < 32")
    case True
    with Cons.prems show ?thesis by (simp add: Let_def)
  next
    case False
    with Cons.prems have "read_chunks cs (shift + 5)
        (result OR push_bit shift ((int (of_char c) - 63) AND 31)) = Inr (r, rest)"
      by (simp add: Let_def)
    from Cons.IH [OF this] show ?thesis by simp
  qed
qed

text \<open>
  The outer loop \<open>while index < len(polyline)\<close>, with the state \<open>lat\<close>, \<open>lng\<close> and
  \<open>coordinates\<close>. Each round appends the pair \<open>(lng, lat)\<close>, in that order, and the
  accumulated integers are appended as they are.
\<close>

function decode_loop ::
  "string \<Rightarrow> int \<Rightarrow> int \<Rightarrow> (int \<times> int) list \<Rightarrow> py_error + (int \<times> int) list" where
  "decode_loop s lat lng coordinates =
     (if s = [] then Inr coordinates
      else case read_chunks s 0 0 of
             Inl e \<Rightarrow> Inl e
           | Inr (result1, s1) \<Rightarrow>
               (let lat' = lat + unzigzag result1
                in case read_chunks s1 0 0 of
                     Inl e \<Rightarrow> Inl e
                   | Inr (result2, s2) \<Rightarrow>
                       (let lng' = lng + unzigzag result2
                        in decode_loop s2 lat' lng' (coordinates @ [(lng', lat')]))))"
  by pat_completeness auto
termination
proof (relation "measure (\<lambda>(s, lat, lng, cs). length s)")
  show "wf (measure (\<lambda>(s, lat, lng, cs). length s))" by simp
next
  fix s :: string and lat lng :: int and coordinates :: "(int \<times> int) list"
    and x2 x y xa x2a xb ya xc
  assume "read_chunks s 0 0 = Inr x2" "(x, y) = x2" "read_chunks y 0 0 = Inr x2a" "(xb, ya) = x2a"
  then have "length y < length s" "length ya < length y"
    by (auto dest: read_chunks_length)
  then show "((ya, xa, xc, coordinates @ [(xc, xa)]), s, lat, lng, coordinates)
       \<in> measure (\<lambda>(s, lat, lng, cs). length s)" by simp
qed

declare decode_loop.simps [simp del]

definition decode_polyline :: "string \<Rightarrow> py_error + (int \<times> int) list" where
  "decode_polyline polyline = (if polyline = [] then Inr [] else decode_loop polyline 0 0 [])"

subsection \<open>The polyline format as the specification words it\<close>

text \<open>
  The specification describes the format in stages: characters offset by 63, groups of 5-bit
  chunks closed by a chunk below 32, each group's value read as a doubled, inverted-if-negative
  signed delta, deltas paired as latitude then longitude, pairs accumulated, and the
  accumulated values scaled by \<open>1e-5\<close>. These definitions follow those words, stage by
  stage, to be compared with the loop above.
\<close>

definition chunk_codes :: "string \<Rightarrow> int list" where
  "chunk_codes s = map (\<lambda>c. int (of_char c) - 63) s"

fun take_group :: "int list \<Rightarrow> (int list \<times> int list) option" where
  "take_group [] = None"
| "take_group (b # bs) =
     (if b < 32 then Some ([b], bs)
      else case take_group bs of None \<Rightarrow> None | Some (g, r) \<Rightarrow> Some (b # g, r))"

fun group_value :: "int list \<Rightarrow> int" where
  "group_value [] = 0"
| "group_value (b # bs) = b mod 32 + 32 * group_value bs"

definition signed_of :: "int \<Rightarrow> int" where
  "signed_of v = (if even v then v div 2 else - ((v + 1) div 2))"

lemma take_group_length: "take_group bs = Some (g, r) \<Longrightarrow> length r < length bs"
  by (induction bs arbitrary: g) (auto split: if_splits option.splits)

function group_values :: "int list \<Rightarrow> int list option" where
  "group_values bs =
     (if bs = [] then Some []
      else case take_group bs of
             None \<Rightarrow> None
           | Some (g, r) \<Rightarrow> map_option ((#) (group_value g)) (group_values r))"
  by pat_completeness auto
termination
  by (relation "measure length") (auto dest: take_group_length)

declare group_values.simps [simp del]

fun pairs_of :: "int list \<Rightarrow> (int \<times> int) list option" where
  "pairs_of [] = Some []"
| "pairs_of [x] = None"
| "pairs_of (x # y # r) = map_option ((#) (x, y)) (pairs_of r)"

definition deltas_of :: "string \<Rightarrow> (int \<times> int) list option" where
  "deltas_of s =
     (case group_values (chunk_codes s) of
        None \<Rightarrow> None
      | Some vs \<Rightarrow> pairs_of (map signed_of vs))"

fun accumulate :: "int \<times> int \<Rightarrow> (int \<times> int) list \<Rightarrow> (int \<times> int) list" where
  "accumulate p [] = []"
| "accumulate (lat, lng) ((dlat, dlng) # ds) =
     (lat + dlat, lng + dlng) # accumulate (lat + dlat, lng + dlng) ds"

text \<open>
  The accumulated (latitude, longitude) integers of a well-formed string; \<open>None\<close> when the
  string ends inside a group or after a latitude without its longitude.
\<close>

definition polyline_points :: "string \<Rightarrow> (int \<times> int) list option" where
  "polyline_points s = map_option (accumulate (0, 0)) (deltas_of s)"

text \<open>The decoder of the specification: (latitude, longitude) in degrees.\<close>

definition spec_decodePolyline :: "string \<Rightarrow> (real \<times> real) list option" where
  "spec_decodePolyline s =
     map_option (map (\<lambda>(lat, lng). (real_of_int lat / 100000, real_of_int lng / 100000)))
       (polyline_points s)"

text \<open>
  Modelled from the spec: \<open>encodePolyline\<close>, the inverse of the decoder. The repository has
  no encoder; the specification names it and fixes the format (signed, delta-encoded,
  doubled and inverted if negative, 5-bit chunks, offset by 63, precision \<open>1e-5\<close>).
\<close>

definition zigzag :: "int \<Rightarrow> int" where
  "zigzag d = (if d < 0 then - (2 * d) - 1 else 2 * d)"

function encode_value :: "int \<Rightarrow> string" where
  "encode_value v =
     (if v < 32 then [char_of (nat (v + 63))]
      else char_of (nat (v mod 32 + 32 + 63)) # encode_value (v div 32))"
  by pat_completeness auto
termination
  by (relation "measure nat") auto

declare encode_value.simps [simp del]

fun encode_from :: "int \<times> int \<Rightarrow> (int \<times> int) list \<Rightarrow> string" where
  "encode_from prev [] = []"
| "encode_from (plat, plng) ((lat, lng) # ps) =
     encode_value (zigzag (lat - plat)) @ encode_value (zigzag (lng - plng))
       @ encode_from (lat, lng) ps"

definition quantize :: "real \<Rightarrow> int" where
  "quantize x = round (x * 100000)"

definition encodePolyline :: "(real \<times> real) list \<Rightarrow> string" where
  "encodePolyline coords =
     encode_from (0, 0) (map (\<lambda>(lat, lng). (quantize lat, quantize lng)) coords)"

text \<open>"Equals within \<open>1e-5\<close> per coordinate", for a decoded list and a coordinate sequence.\<close>

definition within_1e5 :: "(real \<times> real) list \<Rightarrow> (real \<times> real) list \<Rightarrow> bool" where
  "within_1e5 out seq =
     list_all2 (\<lambda>(a, b) (lat, lng). \<bar>a - lat\<bar> \<le> 1 / 100000 \<and> \<bar>b - lng\<bar> \<le> 1 / 100000) out seq"

text \<open>The decoder's integer pairs as reals, component by component.\<close>

definition as_reals :: "(int \<times> int) list \<Rightarrow> (real \<times> real) list" where
  "as_reals ps = map (map_prod real_of_int real_of_int) ps"

text \<open>
  The decoder returns on \<open>s\<close> what the specification's decoder returns: the scaled
  points, latitude first.
\<close>

definition decodes_as_specified :: "string \<Rightarrow> bool" where
  "decodes_as_specified s =
     (case decode_polyline s of
        Inl e \<Rightarrow> False
      | Inr ps \<Rightarrow> spec_decodePolyline s = Some (as_reals ps))"

text \<open>Decoding the encoding of \<open>seq\<close> gives \<open>seq\<close> back within \<open>1e-5\<close>.\<close>

definition round_trips :: "(real \<times> real) list \<Rightarrow> bool" where
  "round_trips seq =
     (case decode_polyline (encodePolyline seq) of
        Inl e \<Rightarrow> False
      | Inr ps \<Rightarrow> within_1e5 (as_reals ps) seq)"

subsection \<open>\<open>planner/services/hybrid_fuel_optimization.py\<close>: distances and fuel stops\<close>

text \<open>
  A point is a pair (latitude, longitude) in degrees. The functions of Python's \<open>math\<close>
  module are the real functions, with their domain errors kept: \<open>math.sqrt\<close> of a negative
  number and \<open>math.asin\<close> outside \<open>[-1, 1]\<close> raise \<open>ValueError\<close>, and a float division by
  zero raises \<open>ZeroDivisionError\<close>.
\<close>

type_synonym coords = "real \<times> real"

definition radians :: "real \<Rightarrow> real" where
  "radians x = x * pi / 180"

definition py_sqrt :: "real \<Rightarrow> py_error + real" where
  "py_sqrt x = (if x < 0 then Inl ValueError else Inr (sqrt x))"

definition py_asin :: "real \<Rightarrow> py_error + real" where
  "py_asin x = (if x < - 1 \<or> 1 < x then Inl ValueError else Inr (arcsin x))"

definition py_div :: "real \<Rightarrow> real \<Rightarrow> py_error + real" where
  "py_div x y = (if y = 0 then Inl ZeroDivisionError else Inr (x / y))"

text \<open>
  \<open>round(x, 2)\<close>: to the nearest multiple of 0.01, a tie going to the even multiple.
\<close>

definition py_round2 :: "real \<Rightarrow> real" where
  "py_round2 x =
     (let y = x * 100; f = \<lfloor>y\<rfloor>; d = y - real_of_int f
      in real_of_int (if d < 1 / 2 then f else if 1 / 2 < d then f + 1
                      else if even f then f else f + 1) / 100)"

text \<open>The haversine term \<open>a\<close> of \<open>calculate_distance\<close>, on radians.\<close>

definition haversine_a :: "real \<Rightarrow> real \<Rightarrow> real \<Rightarrow> real \<Rightarrow> real" where
  "haversine_a lat1 lon1 lat2 lon2 =
     (let dlat = lat2 - lat1; dlon = lon2 - lon1
      in (sin (dlat / 2))\<^sup>2 + cos lat1 * cos lat2 * (sin (dlon / 2))\<^sup>2)"

definition calculate_distance :: "coords \<Rightarrow> coords \<Rightarrow> py_error + real" where
  "calculate_distance point1 point2 =
     (case point1 of (lat1, lon1) \<Rightarrow> case point2 of (lat2, lon2) \<Rightarrow>
        (let a = haversine_a (radians lat1) (radians lon1) (radians lat2) (radians lon2)
         in case py_sqrt a of
              Inl e \<Rightarrow> Inl e
            | Inr root_a \<Rightarrow>
                (case py_asin root_a of
                   Inl e \<Rightarrow> Inl e
                 | Inr angle \<Rightarrow> (let c = 2 * angle; r = 3959 in Inr (c * r)))))"

text \<open>The haversine distance in miles, for an Earth radius of 3959 miles.\<close>

definition haversine_miles :: "coords \<Rightarrow> coords \<Rightarrow> real" where
  "haversine_miles point1 point2 =
     2 * arcsin (sqrt (haversine_a (radians (fst point1)) (radians (snd point1))
                                   (radians (fst point2)) (radians (snd point2)))) * 3959"

definition interpolate_point :: "coords \<Rightarrow> coords \<Rightarrow> real \<Rightarrow> coords" where
  "interpolate_point start end_point ratio =
     (case start of (lat1, lon1) \<Rightarrow> case end_point of (lat2, lon2) \<Rightarrow>
        (lat1 + (lat2 - lat1) * ratio, lon1 + (lon2 - lon1) * ratio))"

text \<open>
  The service object: \<open>self.max_range\<close> and \<open>self.mpg\<close>, which \<open>__init__\<close> copies from the
  settings \<open>VEHICLE_MAX_RANGE\<close> and \<open>VEHICLE_MPG\<close> without looking at them.
\<close>

record service =
  max_range :: real
  mpg :: real

text \<open>A row of \<open>models.FuelStation\<close>, with the fields the services read or write.\<close>

record fuel_station =
  name :: string
  address :: string
  city :: string
  state :: string
  retail_price :: real
  latitude :: "real option"
  longitude :: "real option"
  geocoded :: bool

text \<open>The station object that the planner makes for each stop.\<close>

record stop_station =
  station_name :: string
  station_address :: string
  station_city :: string
  station_state :: string
  station_latitude :: real
  station_longitude :: real
  station_retail_price :: real

record fuel_stop =
  station :: stop_station
  distance_from_previous :: real
  fuel_needed :: real
  cost :: real

record plan_summary =
  total_distance_miles :: real
  total_fuel_gallons :: real
  total_cost :: real
  number_of_stops :: int

record fuel_plan =
  fuel_stops :: "fuel_stop list"
  summary :: plan_summary

text \<open>\<open>str(n)\<close> for a natural number, as the f-strings of the synthesized stations need it.\<close>

fun str_of_nat :: "nat \<Rightarrow> string" where
  "str_of_nat n =
     (if n < 10 then [char_of (48 + n)]
      else str_of_nat (n div 10) @ [char_of (48 + n mod 10)])"

declare str_of_nat.simps [simp del]

text \<open>
  A \<open>for\<close> loop over a list of indices whose body may raise: the first error ends the loop.
\<close>

fun for_range :: "(nat \<Rightarrow> 's \<Rightarrow> py_error + 's) \<Rightarrow> nat list \<Rightarrow> 's \<Rightarrow> py_error + 's" where
  "for_range body [] st = Inr st"
| "for_range body (i # rest) st =
     (case body i st of Inl e \<Rightarrow> Inl e | Inr st' \<Rightarrow> for_range body rest st')"

text \<open>
  The body of \<open>for i in range(stops_needed)\<close> in \<open>find_optimal_fuel_stops\<close>. The loop's state
  is \<open>(fuel_stops, total_cost, current_pos)\<close>, written \<open>(stops, cost_sum, current_pos)\<close>
  because the record fields have the source's names; \<open>real_stations\<close> is the result of
  the database query (the ten cheapest stations, ascending by price).
\<close>

definition stop_body ::
  "service \<Rightarrow> fuel_station list \<Rightarrow> coords \<Rightarrow> coords \<Rightarrow> int \<Rightarrow> real \<Rightarrow> real \<Rightarrow> nat
     \<Rightarrow> fuel_stop list \<times> real \<times> coords \<Rightarrow> py_error + (fuel_stop list \<times> real \<times> coords)" where
  "stop_body self real_stations start_coords end_coords stops_needed base_price price_variation i st =
     (case st of (stops, cost_sum, current_pos) \<Rightarrow>
        (let ratio = (real i + 1) / (real_of_int stops_needed + 1);
             stop_coords = interpolate_point start_coords end_coords ratio
         in case calculate_distance current_pos stop_coords of
              Inl e \<Rightarrow> Inl e
            | Inr distance_from_prev \<Rightarrow>
                (let picked =
                       (if real_stations \<noteq> [] \<and> i < length real_stations
                        then \<lparr>station_name = name (real_stations ! i),
                              station_address = address (real_stations ! i),
                              station_city = city (real_stations ! i),
                              station_state = state (real_stations ! i),
                              station_latitude = fst stop_coords,
                              station_longitude = snd stop_coords,
                              station_retail_price = retail_price (real_stations ! i)\<rparr>
                        else \<lparr>station_name = ''Fuel Stop '' @ str_of_nat (i + 1),
                              station_address =
                                ''Highway '' @ str_of_nat (i + 1) @ '', Exit '' @ str_of_nat (i + 1),
                              station_city = ''City '' @ str_of_nat (i + 1),
                              station_state = ''ST'',
                              station_latitude = fst stop_coords,
                              station_longitude = snd stop_coords,
                              station_retail_price =
                                base_price + price_variation * (0.5 - real (i mod 3) * 0.2)\<rparr>);
                     fuel_price = station_retail_price picked
                 in case py_div distance_from_prev (mpg self) of
                      Inl e \<Rightarrow> Inl e
                    | Inr fuel \<Rightarrow>
                        (let stop_cost = fuel * fuel_price
                         in Inr (stops @ [\<lparr>station = picked,
                                               distance_from_previous = distance_from_prev,
                                               fuel_needed = fuel,
                                               cost = stop_cost\<rparr>],
                                 cost_sum + stop_cost,
                                 stop_coords)))))"

definition find_optimal_fuel_stops ::
  "service \<Rightarrow> fuel_station list \<Rightarrow> coords \<Rightarrow> coords \<Rightarrow> py_error + fuel_plan" where
  "find_optimal_fuel_stops self real_stations start_coords end_coords =
     (case calculate_distance start_coords end_coords of
        Inl e \<Rightarrow> Inl e
      | Inr total_distance \<Rightarrow>
          if total_distance \<le> max_range self then
            (case py_div total_distance (mpg self) of
               Inl e \<Rightarrow> Inl e
             | Inr total_fuel \<Rightarrow>
                 Inr \<lparr>fuel_stops = [],
                      summary = \<lparr>total_distance_miles = py_round2 total_distance,
                                 total_fuel_gallons = py_round2 total_fuel,
                                 total_cost = 0,
                                 number_of_stops = 0\<rparr>\<rparr>)
          else
            (case py_div total_distance (max_range self) of
               Inl e \<Rightarrow> Inl e
             | Inr ratio_total \<Rightarrow>
                 (let stops_needed = \<lceil>ratio_total\<rceil> - 1;
                      base_price = (if real_stations \<noteq> [] then retail_price (hd real_stations)
                                    else 3.50);
                      price_variation = 0.5
                  in case for_range
                            (stop_body self real_stations start_coords end_coords stops_needed
                               base_price price_variation)
                            [0 ..< nat stops_needed] ([], 0, start_coords) of
                       Inl e \<Rightarrow> Inl e
                     | Inr (stops, cost_sum, current_pos) \<Rightarrow>
                         (let total_fuel = sum_list (map fuel_needed stops)
                          in Inr \<lparr>fuel_stops = stops,
                                  summary = \<lparr>total_distance_miles = py_round2 total_distance,
                                             total_fuel_gallons = py_round2 total_fuel,
                                             total_cost = py_round2 cost_sum,
                                             number_of_stops = int (length stops)\<rparr>\<rparr>))))"

text \<open>
  The leg that the plan leaves implicit: from the last stop (or from the start, when there
  is no stop) to the destination.
\<close>

definition final_leg :: "coords \<Rightarrow> coords \<Rightarrow> fuel_stop list \<Rightarrow> py_error + real" where
  "final_leg start_coords end_coords stops =
     calculate_distance
       (if stops = [] then start_coords
        else (station_latitude (station (last stops)), station_longitude (station (last stops))))
       end_coords"

text \<open>
  The short-route outcome as the specification states it: the planner returns, with no stop,
  a total fuel of exactly \<open>total_distance / mpg\<close> and a total cost of 0.
\<close>

definition short_route_as_specified ::
  "service \<Rightarrow> fuel_station list \<Rightarrow> coords \<Rightarrow> coords \<Rightarrow> bool" where
  "short_route_as_specified self real_stations start_coords end_coords =
     (case find_optimal_fuel_stops self real_stations start_coords end_coords of
        Inl e \<Rightarrow> False
      | Inr plan \<Rightarrow>
          fuel_stops plan = []
          \<and> number_of_stops (summary plan) = 0
          \<and> total_fuel_gallons (summary plan)
              = haversine_miles start_coords end_coords / mpg self
          \<and> total_cost (summary plan) = 0)"

text \<open>
  The place of stop \<open>i\<close> (the \<open>stop_coords\<close> of round \<open>i\<close> of the loop), the place recorded in
  a stop, and the great-circle lengths of the consecutive legs of a path.
\<close>

definition stop_point :: "coords \<Rightarrow> coords \<Rightarrow> int \<Rightarrow> nat \<Rightarrow> coords" where
  "stop_point start_coords end_coords stops_needed i =
     interpolate_point start_coords end_coords ((real i + 1) / (real_of_int stops_needed + 1))"

definition station_coords :: "fuel_stop \<Rightarrow> coords" where
  "station_coords stop = (station_latitude (station stop), station_longitude (station stop))"

fun legs :: "coords \<Rightarrow> coords list \<Rightarrow> real list" where
  "legs a [] = []"
| "legs a (b # rest) = haversine_miles a b # legs b rest"

text \<open>
  The invariant of the specification on a plan: the planner returns, every stop's
  \<open>distance_from_previous\<close> is non-negative, and these distances plus the final leg add up
  to the total distance, within the tolerance \<open>tol\<close>.
\<close>

definition legs_match_total ::
  "real \<Rightarrow> service \<Rightarrow> fuel_station list \<Rightarrow> coords \<Rightarrow> coords \<Rightarrow> bool" where
  "legs_match_total tol self real_stations start_coords end_coords =
     (case find_optimal_fuel_stops self real_stations start_coords end_coords of
        Inl e \<Rightarrow> False
      | Inr plan \<Rightarrow>
          (case final_leg start_coords end_coords (fuel_stops plan) of
             Inl e \<Rightarrow> False
           | Inr last_leg \<Rightarrow>
               list_all (\<lambda>stop. 0 \<le> distance_from_previous stop) (fuel_stops plan)
               \<and> \<bar>sum_list (map distance_from_previous (fuel_stops plan)) + last_leg
                    - haversine_miles start_coords end_coords\<bar> \<le> tol))"

subsection \<open>\<open>planner/services/geocoding.py\<close> and \<open>routing.py\<close>: resolving locations\<close>

text \<open>
  What the services do to the outside is recorded in order: a request to the geocoding
  provider with its query, a \<open>station.save()\<close>, and an \<open>asyncio.sleep\<close> with its delay. The
  world is the cache (the entries under the \<open>geocode:\<close> keys) and the record of these events.
  Expiry of cache entries and failures of the cache backend are not modelled.
\<close>

datatype event = HttpGet string | Save string | Sleep real

record world =
  cache :: "string \<rightharpoonup> coords"
  trace :: "event list"

text \<open>
  The provider's answer to a query: \<open>Failed\<close> stands for everything that raises inside the
  \<open>try\<close> block (transport error, timeout, error status, a body that is not JSON), \<open>Results\<close>
  for the JSON array, each element given by its \<open>lat\<close> and \<open>lon\<close> strings. The environment
  holds the provider, Python's \<open>float\<close> on strings (\<open>None\<close> where it raises \<open>ValueError\<close>),
  and whether saving a station succeeds.
\<close>

datatype reply = Failed | Results "(string \<times> string) list"

record env =
  provider :: "string \<Rightarrow> reply"
  to_float :: "string \<Rightarrow> real option"
  save_ok :: "fuel_station \<Rightarrow> bool"

text \<open>
  \<open>str.strip()\<close>, \<open>str.split(sep)\<close>, \<open>str.replace(" ", "_")\<close> and \<open>str.lower()\<close> on
  characters with codes 0 to 255.
\<close>

definition is_space :: "char \<Rightarrow> bool" where
  "is_space c =
     (let n = (of_char c :: nat)
      in (9 \<le> n \<and> n \<le> 13) \<or> (28 \<le> n \<and> n \<le> 32) \<or> n = 133 \<or> n = 160)"

definition strip :: "string \<Rightarrow> string" where
  "strip s = rev (dropWhile is_space (rev (dropWhile is_space s)))"

fun split_on :: "char \<Rightarrow> string \<Rightarrow> string list" where
  "split_on sep [] = [[]]"
| "split_on sep (c # cs) =
     (if c = sep then [] # split_on sep cs
      else case split_on sep cs of
             [] \<Rightarrow> [[c]]
           | part # parts \<Rightarrow> (c # part) # parts)"

definition lower_char :: "char \<Rightarrow> char" where
  "lower_char c =
     (let n = (of_char c :: nat)
      in if (65 \<le> n \<and> n \<le> 90) \<or> (192 \<le> n \<and> n \<le> 222 \<and> n \<noteq> 215)
         then char_of (n + 32) else c)"

definition cache_key_of :: "string \<Rightarrow> string \<Rightarrow> string \<Rightarrow> string" where
  "cache_key_of address_v city_v state_v =
     map lower_char
       (map (\<lambda>c. if c = CHR '' '' then CHR ''_'' else c)
          (''geocode:'' @ address_v @ '':'' @ city_v @ '':'' @ state_v))"

definition query_of :: "string \<Rightarrow> string \<Rightarrow> string \<Rightarrow> string" where
  "query_of address_v city_v state_v = address_v @ '', '' @ city_v @ '', '' @ state_v @ '', USA''"

text \<open>\<open>GeocodingService.geocode_address\<close>\<close>

definition geocode_address ::
  "env \<Rightarrow> string \<Rightarrow> string \<Rightarrow> string \<Rightarrow> world \<Rightarrow> coords option \<times> world" where
  "geocode_address ev address_v city_v state_v w =
     (let cache_key = cache_key_of address_v city_v state_v
      in case cache w cache_key of
           Some cached_result \<Rightarrow> (Some cached_result, w)
         | None \<Rightarrow>
             (let query = query_of address_v city_v state_v;
                  w1 = w\<lparr>trace := trace w @ [HttpGet query]\<rparr>
              in case provider ev query of
                   Failed \<Rightarrow> (None, w1)
                 | Results data \<Rightarrow>
                     (case data of
                        [] \<Rightarrow> (None, w1)
                      | (lat_s, lon_s) # others \<Rightarrow>
                          (case to_float ev lat_s of
                             None \<Rightarrow> (None, w1)
                           | Some lat \<Rightarrow>
                               (case to_float ev lon_s of
                                  None \<Rightarrow> (None, w1)
                                | Some lon \<Rightarrow>
                                    (Some (lat, lon),
                                     w1\<lparr>cache := (cache w1)(cache_key \<mapsto> (lat, lon))\<rparr>))))))"

text \<open>
  \<open>RoutePlanningService.geocode_location\<close> on a string. The \<open>try\<close> block gives the pair of
  floats when the string has exactly one comma and both parts convert; unpacking another
  number of parts and a failed conversion both raise \<open>ValueError\<close>, which is passed over.
\<close>

definition parse_pair :: "env \<Rightarrow> string \<Rightarrow> coords option" where
  "parse_pair ev location =
     (if CHR '','' \<in> set location then
        (case split_on CHR '','' location of
           [lat, lon] \<Rightarrow>
             (case to_float ev (strip lat) of
                None \<Rightarrow> None
              | Some x \<Rightarrow>
                  (case to_float ev (strip lon) of
                     None \<Rightarrow> None
                   | Some y \<Rightarrow> Some (x, y)))
         | _ \<Rightarrow> None)
      else None)"

definition geocode_location :: "env \<Rightarrow> string \<Rightarrow> world \<Rightarrow> coords option \<times> world" where
  "geocode_location ev location w =
     (case parse_pair ev location of
        Some pair \<Rightarrow> (Some pair, w)
      | None \<Rightarrow>
          (let parts = split_on CHR '','' location
           in if 2 \<le> length parts
              then geocode_address ev [] (strip (parts ! 0)) (strip (parts ! 1)) w
              else (None, w)))"

text \<open>
  One round of the loop of \<open>geocode_fuel_stations\<close>, for the station at index \<open>i\<close> of \<open>n\<close>. When
  \<open>station.save()\<close> raises, the \<open>except\<close> branch appends the station and the sleep is skipped.
\<close>

definition rate_limit_delay :: real where
  "rate_limit_delay = 1.1"

definition geocode_station ::
  "env \<Rightarrow> nat \<Rightarrow> nat \<Rightarrow> fuel_station \<Rightarrow> fuel_station list \<times> world
     \<Rightarrow> fuel_station list \<times> world" where
  "geocode_station ev n i st acc =
     (case acc of (geocoded_stations, w) \<Rightarrow>
        (case geocode_address ev (address st) (city st) (state st) w of
           (coords_found, w1) \<Rightarrow>
             (let pause = (\<lambda>w'. if i + 1 < n
                                  then w'\<lparr>trace := trace w' @ [Sleep rate_limit_delay]\<rparr>
                                  else w')
              in case coords_found of
                   Some (lat, lon) \<Rightarrow>
                     (let st' = st\<lparr>latitude := Some lat, longitude := Some lon,
                                    geocoded := True\<rparr>
                      in if save_ok ev st'
                         then (geocoded_stations @ [st'],
                               pause (w1\<lparr>trace := trace w1 @ [Save (name st')]\<rparr>))
                         else (geocoded_stations @ [st'], w1))
                 | None \<Rightarrow> (geocoded_stations @ [st], pause w1))))"

fun batch_loop ::
  "env \<Rightarrow> nat \<Rightarrow> nat \<Rightarrow> fuel_station list \<Rightarrow> fuel_station list \<times> world
     \<Rightarrow> fuel_station list \<times> world" where
  "batch_loop ev n i [] acc = acc"
| "batch_loop ev n i (st # rest) acc = batch_loop ev n (i + 1) rest (geocode_station ev n i st acc)"

definition geocode_fuel_stations ::
  "env \<Rightarrow> fuel_station list \<Rightarrow> world \<Rightarrow> fuel_station list \<times> world" where
  "geocode_fuel_stations ev stations w =
     (let stations_to_geocode = filter (\<lambda>s. \<not> geocoded s) stations
      in if stations_to_geocode = [] then (stations, w)
         else batch_loop ev (length stations_to_geocode) 0 stations_to_geocode ([], w))"

text \<open>The requests and the delays of a record of events, each in order.\<close>

fun requests :: "event list \<Rightarrow> string list" where
  "requests [] = []"
| "requests (HttpGet q # es) = q # requests es"
| "requests (e # es) = requests es"

fun delays :: "event list \<Rightarrow> real list" where
  "delays [] = []"
| "delays (Sleep d # es) = d # delays es"
| "delays (e # es) = delays es"

text \<open>
  \<open>spaced gap es\<close>: every request of \<open>es\<close> comes at least \<open>rate_limit_delay\<close> seconds of sleep
  after the request before it. \<open>gap\<close> is the sleep since the last request so far (\<open>None\<close>
  before the first request), and \<open>gap_after\<close> is its value at the end of \<open>es\<close>.
\<close>

fun spaced :: "real option \<Rightarrow> event list \<Rightarrow> bool" where
  "spaced gap [] = True"
| "spaced gap (HttpGet q # es) =
     ((case gap of None \<Rightarrow> True | Some d \<Rightarrow> rate_limit_delay \<le> d) \<and> spaced (Some 0) es)"
| "spaced gap (Sleep d # es) = spaced (map_option (\<lambda>g. g + d) gap) es"
| "spaced gap (Save nm # es) = spaced gap es"

fun gap_after :: "real option \<Rightarrow> event list \<Rightarrow> real option" where
  "gap_after gap [] = gap"
| "gap_after gap (HttpGet q # es) = gap_after (Some 0) es"
| "gap_after gap (Sleep d # es) = gap_after (map_option (\<lambda>g. g + d) gap) es"
| "gap_after gap (Save nm # es) = gap_after gap es"

text \<open>The events that a batch adds to the record.\<close>

definition batch_events :: "env \<Rightarrow> fuel_station list \<Rightarrow> world \<Rightarrow> event list" where
  "batch_events ev stations w =
     drop (length (trace w)) (trace (snd (geocode_fuel_stations ev stations w)))"

text \<open>
  The claim on cached items: a batch that sends no request, all its items being served from
  the cache, does not sleep.
\<close>

definition cache_hits_undelayed :: "env \<Rightarrow> fuel_station list \<Rightarrow> world \<Rightarrow> bool" where
  "cache_hits_undelayed ev stations w =
     (requests (batch_events ev stations w) \<noteq> [] \<or> delays (batch_events ev stations w) = [])"

text \<open>
  The claim on literal pairs: a coordinate that \<open>geocode_location\<close> returns has its latitude
  in \<open>[-90, 90]\<close> and its longitude in \<open>[-180, 180]\<close>.
\<close>

definition returns_in_range :: "env \<Rightarrow> string \<Rightarrow> world \<Rightarrow> bool" where
  "returns_in_range ev location w =
     (case fst (geocode_location ev location w) of
        None \<Rightarrow> True
      | Some (lat, lon) \<Rightarrow> - 90 \<le> lat \<and> lat \<le> 90 \<and> - 180 \<le> lon \<and> lon \<le> 180)"

text \<open>
  A reader of plain decimal literals (optional sign, digits, optional point and digits), on
  which it agrees with \<open>float\<close>; it stands for \<open>float\<close> in the examples.
\<close>

definition is_digit :: "char \<Rightarrow> bool" where
  "is_digit c = (let n = (of_char c :: nat) in 48 \<le> n \<and> n \<le> 57)"

fun digits_value :: "nat \<Rightarrow> string \<Rightarrow> nat" where
  "digits_value acc [] = acc"
| "digits_value acc (c # cs) = digits_value (10 * acc + (of_char c - 48)) cs"

definition unsigned_decimal :: "string \<Rightarrow> real option" where
  "unsigned_decimal s =
     (let whole = takeWhile is_digit s; rest = dropWhile is_digit s
      in case rest of
           [] \<Rightarrow> if whole = [] then None else Some (real (digits_value 0 whole))
         | c # fraction \<Rightarrow>
             if c = CHR ''.'' \<and> list_all is_digit fraction \<and> (whole \<noteq> [] \<or> fraction \<noteq> [])
             then Some (real (digits_value 0 whole)
                        + real (digits_value 0 fraction) / 10 ^ length fraction)
             else None)"

definition decimal_literal :: "string \<Rightarrow> real option" where
  "decimal_literal s =
     (case s of
        [] \<Rightarrow> None
      | c # r \<Rightarrow>
          if c = CHR ''-'' then map_option uminus (unsigned_decimal r)
          else if c = CHR ''+'' then unsigned_decimal r
          else unsigned_decimal s)"

text \<open>An environment for the examples: the provider fails, every save succeeds.\<close>

definition example_env :: env where
  "example_env = \<lparr>provider = (\<lambda>q. Failed), to_float = decimal_literal, save_ok = (\<lambda>s. True)\<rparr>"

definition empty_world :: world where
  "empty_world = \<lparr>cache = Map.empty, trace = []\<rparr>"

text \<open>Two stations that are not geocoded yet, and a world whose cache holds both.\<close>

definition station_a :: fuel_station where
  "station_a = \<lparr>name = ''A'', address = ''1 Main St'', city = ''Tulsa'', state = ''OK'',
                 retail_price = 3.1, latitude = None, longitude = None, geocoded = False\<rparr>"

definition station_b :: fuel_station where
  "station_b = \<lparr>name = ''B'', address = ''2 Oak Ave'', city = ''Tulsa'', state = ''OK'',
                 retail_price = 3.2, latitude = None, longitude = None, geocoded = False\<rparr>"

definition cached_world :: world where
  "cached_world =
     \<lparr>cache = [''geocode:1_main_st:tulsa:ok'' \<mapsto> (36.15, - 95.99),
               ''geocode:2_oak_ave:tulsa:ok'' \<mapsto> (36.16, - 95.98)],
      trace = []\<rparr>"

text \<open>
  \<open>rested gap\<close>: no request has been sent yet, or the sleep since the last one has reached
  the delay.
\<close>

definition rested :: "real option \<Rightarrow> bool" where
  "rested gap = (case gap of None \<Rightarrow> True | Some d \<Rightarrow> rate_limit_delay \<le> d)"


text \<open>
  The coordinates that one request yields: the first element of the provider's array when
  there is one and both of its strings convert.
\<close>

definition provider_answer :: "env \<Rightarrow> string \<Rightarrow> coords option" where
  "provider_answer ev query =
     (case provider ev query of
        Failed \<Rightarrow> None
      | Results data \<Rightarrow>
          (case data of
             [] \<Rightarrow> None
           | (lat_s, lon_s) # others \<Rightarrow>
               (case to_float ev lat_s of
                  None \<Rightarrow> None
                | Some lat \<Rightarrow> map_option (Pair lat) (to_float ev lon_s))))"

text \<open>
  The queries of the stations that are not in the cache when their turn comes, in submission
  order, starting from the cache \<open>c\<close>: a station found in the cache sends nothing, and an
  answered request puts its result into the cache for the stations after it.
\<close>

fun uncached_queries :: "env \<Rightarrow> (string \<rightharpoonup> coords) \<Rightarrow> fuel_station list \<Rightarrow> string list" where
  "uncached_queries ev c [] = []"
| "uncached_queries ev c (st # rest) =
     (let key = cache_key_of (address st) (city st) (state st);
          query = query_of (address st) (city st) (state st)
      in case c key of
           Some hit \<Rightarrow> uncached_queries ev c rest
         | None \<Rightarrow>
             query # uncached_queries ev
                       (case provider_answer ev query of
                          None \<Rightarrow> c
                        | Some found \<Rightarrow> c(key \<mapsto> found))
                       rest)"

text \<open>An environment for the examples in which the provider answers every query.\<close>

definition answering_env :: env where
  "answering_env =
     \<lparr>provider = (\<lambda>q. Results [(''36.15'', ''-95.99'')]), to_float = decimal_literal,
      save_ok = (\<lambda>s. True)\<rparr>"

section \<open>Properties\<close>

subsection \<open>The decoder against the format\<close>

lemma and_31_mod: "(b::int) AND 31 = b mod 32"
  by (simp add: take_bit_eq_mod
      flip: take_bit_eq_mask [of 5 b, simplified mask_eq_exp_minus_1, simplified])

lemma chunk_or_plus: "(b AND 31) OR push_bit 5 v = b mod 32 + 32 * (v::int)"
proof -
  have a: "b AND 31 = take_bit 5 b"
    by (simp add: take_bit_eq_mask mask_eq_exp_minus_1)
  have "take_bit 5 b OR push_bit 5 v = take_bit 5 b + push_bit 5 v"
    by (rule disjunctive_add [symmetric]) (auto simp: bit_simps)
  then show ?thesis using a by (simp add: take_bit_eq_mod push_bit_eq_mult)
qed

lemma or_push_chunk:
  "(result OR push_bit shift (b AND 31)) OR push_bit (shift + 5) v
     = result OR push_bit shift (b mod 32 + 32 * (v::int))"
proof -
  have "push_bit shift (b AND 31) OR push_bit (shift + 5) v
        = push_bit shift ((b AND 31) OR push_bit 5 v)"
    by (simp add: push_bit_or push_bit_add ac_simps flip: push_bit_push_bit)
  then show ?thesis by (simp add: chunk_or_plus or.assoc)
qed

lemma unzigzag_signed_of: "unzigzag v = signed_of v"
proof (cases "even v")
  case True
  then have "v AND 1 = 0" by (simp add: and_one_eq)
  with True show ?thesis by (simp add: unzigzag_def signed_of_def drop_bit_eq_div)
next
  case False
  then have "v AND 1 = 1" by (simp add: and_one_eq odd_iff_mod_2_eq_one)
  moreover from False have "(v + 1) div 2 = v div 2 + 1" by presburger
  ultimately show ?thesis using False
    by (simp add: unzigzag_def signed_of_def drop_bit_eq_div not_int_def)
qed

text \<open>One run of the inner loop reads exactly one group and computes its value.\<close>

lemma read_chunks_take_group:
  "read_chunks s shift result =
     (case take_group (chunk_codes s) of
        None \<Rightarrow> Inl IndexError
      | Some (g, r) \<Rightarrow> Inr (result OR push_bit shift (group_value g), drop (length g) s))"
proof (induction s arbitrary: shift result)
  case Nil
  then show ?case by (simp add: chunk_codes_def)
next
  case (Cons c cs)
  show ?case
  proof (cases "int (of_char c) - 63 < 32")
    case True
    then show ?thesis
      by (simp add: chunk_codes_def Let_def and_31_mod)
  next
    case False
    then show ?thesis
      using Cons.IH [of "shift + 5" "result OR push_bit shift ((int (of_char c) - 63) AND 31)"]
      by (auto simp: chunk_codes_def Let_def or_push_chunk simp del: push_bit_and
          split: option.splits)
  qed
qed

lemma group_values_Cons:
  "take_group bs = Some (g, r) \<Longrightarrow>
   group_values bs = map_option ((#) (group_value g)) (group_values r)"
  by (subst group_values.simps) auto

lemma take_group_drop: "take_group bs = Some (g, r) \<Longrightarrow> r = drop (length g) bs"
  by (induction bs arbitrary: g) (auto split: if_splits option.splits)

lemma chunk_codes_drop: "chunk_codes (drop n s) = drop n (chunk_codes s)"
  by (simp add: chunk_codes_def drop_map)

lemma deltas_of_None:
  "take_group (chunk_codes s) = None \<Longrightarrow> s \<noteq> [] \<Longrightarrow> deltas_of s = None"
  by (simp add: deltas_of_def chunk_codes_def group_values.simps [of "map f s" for f])

lemma deltas_of_odd:
  assumes "take_group (chunk_codes s) = Some (g1, r1)" and "take_group r1 = None"
  shows "deltas_of s = None"
proof (cases "r1 = []")
  case True
  then have "group_values r1 = Some []" by (simp add: group_values.simps)
  with assms(1) show ?thesis by (simp add: deltas_of_def group_values_Cons)
next
  case False
  with assms(2) have "group_values r1 = None" by (simp add: group_values.simps [of r1])
  with assms(1) show ?thesis by (simp add: deltas_of_def group_values_Cons)
qed

lemma deltas_of_step:
  assumes "take_group (chunk_codes s) = Some (g1, r1)" and "take_group r1 = Some (g2, r2)"
  shows "deltas_of s = map_option ((#) (signed_of (group_value g1), signed_of (group_value g2)))
           (deltas_of (drop (length g2) (drop (length g1) s)))"
proof -
  have r1: "r1 = chunk_codes (drop (length g1) s)"
    using take_group_drop [OF assms(1)] by (simp add: chunk_codes_drop)
  have r2: "r2 = chunk_codes (drop (length g2) (drop (length g1) s))"
    using take_group_drop [OF assms(2)] r1 by (simp add: chunk_codes_drop)
  show ?thesis
    using group_values_Cons [OF assms(1)] group_values_Cons [OF assms(2)] r2
    by (cases "group_values r2") (simp_all add: deltas_of_def)
qed

text \<open>
  The outer loop, from any state: the pairs already collected, followed by the running sums
  of the remaining deltas with the two components exchanged.
\<close>

lemma decode_loop_spec:
  "decode_loop s lat lng acc =
     (case deltas_of s of
        None \<Rightarrow> Inl IndexError
      | Some ds \<Rightarrow> Inr (acc @ map prod.swap (accumulate (lat, lng) ds)))"
proof (induction s lat lng acc rule: decode_loop.induct)
  case (1 s lat lng acc)
  show ?case
  proof (cases "s = []")
    case True
    then show ?thesis
      by (simp add: deltas_of_def chunk_codes_def group_values.simps decode_loop.simps)
  next
    case nonempty: False
    show ?thesis
    proof (cases "take_group (chunk_codes s)")
      case None
      then have "read_chunks s 0 0 = Inl IndexError" by (simp add: read_chunks_take_group)
      with nonempty deltas_of_None [OF None nonempty] show ?thesis
        by (simp add: decode_loop.simps [of s])
    next
      case (Some p1)
      obtain g1 r1 where p1: "p1 = (g1, r1)" by (cases p1)
      let ?s1 = "drop (length g1) s"
      have tg1: "take_group (chunk_codes s) = Some (g1, r1)" using Some p1 by simp
      have rd1: "read_chunks s 0 0 = Inr (group_value g1, ?s1)"
        using tg1 by (simp add: read_chunks_take_group)
      have r1: "r1 = chunk_codes ?s1"
        using take_group_drop [OF tg1] by (simp add: chunk_codes_drop)
      show ?thesis
      proof (cases "take_group r1")
        case None
        then have "read_chunks ?s1 0 0 = Inl IndexError"
          using r1 by (simp add: read_chunks_take_group)
        with nonempty rd1 deltas_of_odd [OF tg1 None] show ?thesis
          by (simp add: decode_loop.simps [of s])
      next
        case (Some p2)
        obtain g2 r2 where p2: "p2 = (g2, r2)" by (cases p2)
        let ?s2 = "drop (length g2) ?s1"
        have tg2: "take_group r1 = Some (g2, r2)" using Some p2 by simp
        have rd2: "read_chunks ?s1 0 0 = Inr (group_value g2, ?s2)"
          using tg2 r1 by (simp add: read_chunks_take_group)
        let ?lat = "lat + unzigzag (group_value g1)"
        let ?lng = "lng + unzigzag (group_value g2)"
        have ih: "decode_loop ?s2 ?lat ?lng (acc @ [(?lng, ?lat)]) =
           (case deltas_of ?s2 of None \<Rightarrow> Inl IndexError
            | Some ds \<Rightarrow>
                Inr ((acc @ [(?lng, ?lat)]) @ map prod.swap (accumulate (?lat, ?lng) ds)))"
          by (rule "1.IH" [OF nonempty rd1 refl refl rd2 refl refl])
        have unfold: "decode_loop s lat lng acc = decode_loop ?s2 ?lat ?lng (acc @ [(?lng, ?lat)])"
          using nonempty rd1 rd2 by (simp add: decode_loop.simps [of s] Let_def)
        show ?thesis
          unfolding unfold ih deltas_of_step [OF tg1 tg2]
          by (cases "deltas_of ?s2") (simp_all add: unzigzag_signed_of)
      qed
    qed
  qed
qed

text \<open>
  The loop follows the format: from any string it accumulates the zigzag-decoded values of
  the 5-bit-chunk groups, latitude delta first and longitude delta second, one point for
  each pair and in order, and it raises \<open>IndexError\<close> on a string that ends inside a group or
  after a latitude delta with no longitude delta. What it appends are the accumulated
  integers themselves, the longitude first.
\<close>

lemma decode_polyline_points:
  "decode_polyline s =
     (case polyline_points s of
        None \<Rightarrow> Inl IndexError
      | Some ps \<Rightarrow> Inr (map prod.swap ps))"
proof -
  have "decode_polyline s = decode_loop s 0 0 []"
    by (simp add: decode_polyline_def decode_loop.simps [of "[]"])
  then show ?thesis
    by (simp add: polyline_points_def decode_loop_spec split: option.splits)
qed

lemma decode_example: "decode_polyline ''_p~iF~ps|U'' = Inr [(-12020000, 3850000)]"
  by code_simp

lemma points_example: "polyline_points ''_p~iF~ps|U'' = Some [(3850000, -12020000)]"
  by code_simp

text \<open>
  C1. The decoder breaks the claim on \<open>_p~iF~ps|U\<close>, the first point of the format's standard
  example. The claim's decoder accumulates the deltas and scales them by \<open>1e-5\<close>, which gives
  the one point \<open>(38.5, -120.2)\<close>; \<open>decode_polyline\<close> returns \<open>(-12020000, 3850000)\<close>, the
  accumulated integers, which it never scales although it is annotated to return floats and
  its result is used as degrees.
\<close>

theorem decode_polyline_unscaled:
  "decode_polyline ''_p~iF~ps|U'' = Inr [(-12020000, 3850000)]
   \<and> spec_decodePolyline ''_p~iF~ps|U'' = Some [(38.5, -120.2)]
   \<and> \<not> decodes_as_specified ''_p~iF~ps|U''"
  by (simp add: decodes_as_specified_def decode_example spec_decodePolyline_def
      points_example as_reals_def)

subsection \<open>The codec's round trip\<close>

lemma encode_value_nonempty: "encode_value v \<noteq> []"
  by (subst encode_value.simps) simp

lemma read_chunks_encode_value:
  "0 \<le> v \<Longrightarrow> read_chunks (encode_value v @ rest) shift result
     = Inr (result OR push_bit shift v, rest)"
proof (induction v arbitrary: shift result rule: encode_value.induct)
  case (1 v)
  show ?case
  proof (cases "v < 32")
    case True
    with "1.prems" have "of_char (char_of (nat (v + 63))) = nat (v + 63)"
      by (simp add: of_char_of)
    with True "1.prems" show ?thesis
      by (simp add: encode_value.simps [of v] Let_def and_31_mod)
  next
    case False
    let ?b = "v mod 32 + 32"
    define ch :: char where "ch = char_of (nat (?b + 63))"
    have m: "0 \<le> v mod 32" "v mod 32 < 32" by simp_all
    then have c: "int (of_char ch) - 63 = ?b"
      by (simp add: ch_def of_char_of nat_add_distrib)
    have ev: "encode_value v = ch # encode_value (v div 32)"
      using False by (simp add: encode_value.simps [of v] ch_def)
    have nn: "0 \<le> v div 32" using "1.prems" by simp
    have "read_chunks (encode_value v @ rest) shift result =
        read_chunks (encode_value (v div 32) @ rest) (shift + 5)
          (result OR push_bit shift (?b AND 31))"
    proof -
      have nb: "\<not> ?b < 32" using m(1) by linarith
      show ?thesis
        unfolding ev append_Cons read_chunks.simps Let_def c if_not_P [OF nb] ..
    qed
    also have "\<dots> =
        Inr ((result OR push_bit shift (?b AND 31)) OR push_bit (shift + 5) (v div 32), rest)"
      by (rule "1.IH" [OF False nn])
    also have "(result OR push_bit shift (?b AND 31)) OR push_bit (shift + 5) (v div 32)
        = result OR push_bit shift v"
      by (simp add: or_push_chunk del: push_bit_and)
    finally show ?thesis .
  qed
qed

lemma zigzag_nonneg: "0 \<le> zigzag d"
  by (simp add: zigzag_def)

lemma signed_of_zigzag: "signed_of (zigzag d) = d"
  by (simp add: signed_of_def zigzag_def) presburger

lemma decode_loop_encode_from:
  "decode_loop (encode_from (lat, lng) ps) lat lng acc = Inr (acc @ map prod.swap ps)"
proof (induction ps arbitrary: lat lng acc)
  case Nil
  then show ?case by (simp add: decode_loop.simps)
next
  case (Cons p ps)
  obtain la lo where p: "p = (la, lo)" by (cases p)
  let ?s = "encode_from (lat, lng) ((la, lo) # ps)"
  let ?s1 = "encode_value (zigzag (lo - lng)) @ encode_from (la, lo) ps"
  have ne: "?s \<noteq> []" by (simp add: encode_value_nonempty)
  have r1: "read_chunks ?s 0 0 = Inr (zigzag (la - lat), ?s1)"
    using read_chunks_encode_value [OF zigzag_nonneg, of "la - lat" ?s1 0 0] by simp
  have r2: "read_chunks ?s1 0 0 = Inr (zigzag (lo - lng), encode_from (la, lo) ps)"
    using read_chunks_encode_value [OF zigzag_nonneg, of "lo - lng" _ 0 0] by simp
  show ?case
    unfolding p
    by (subst decode_loop.simps)
       (simp add: ne r1 r2 Let_def unzigzag_signed_of signed_of_zigzag Cons.IH
             del: encode_from.simps)
qed

lemma decode_encode_ints:
  "decode_polyline (encode_from (0, 0) ps) = Inr (map prod.swap ps)"
proof (cases ps)
  case Nil
  then show ?thesis by (simp add: decode_polyline_def)
next
  case (Cons p qs)
  obtain la lo where "p = (la, lo)" by (cases p)
  with Cons have "encode_from (0, 0) ps \<noteq> []"
    by (simp add: encode_value_nonempty)
  then show ?thesis
    using decode_loop_encode_from [of 0 0 ps "[]"] by (simp add: decode_polyline_def)
qed

lemma quantize_close: "\<bar>real_of_int (quantize x) / 100000 - x\<bar> \<le> 1 / 200000"
proof -
  have "\<bar>real_of_int (round (x * 100000)) - x * 100000\<bar> \<le> 1 / 2"
    by (rule of_int_round_abs_le)
  then show ?thesis by (simp add: quantize_def field_simps abs_if split: if_splits)
qed

lemma quantized_within:
  "within_1e5 (map (\<lambda>(lat, lng). (real_of_int (quantize lat) / 100000,
                                  real_of_int (quantize lng) / 100000)) seq) seq"
proof -
  have "\<bar>real_of_int (quantize x) / 100000 - x\<bar> \<le> 1 / 100000" for x
    using quantize_close [of x] by linarith
  then show ?thesis
    by (induction seq) (auto simp: within_1e5_def)
qed

text \<open>
  The integers that the decoder accumulates on an encoded sequence are the coordinates
  quantized to whole multiples of \<open>1e-5\<close> degree, and these, divided by \<open>1e5\<close>, lie within
  \<open>1e-5\<close> of the input (\<open>quantized_within\<close>); the source leaves that division out.
\<close>

lemma decode_encode_points:
  "decode_polyline (encodePolyline seq)
     = Inr (map (\<lambda>(lat, lng). (quantize lng, quantize lat)) seq)"
proof -
  have "map prod.swap (map (\<lambda>(lat, lng). (quantize lat, quantize lng)) seq)
      = map (\<lambda>(lat, lng). (quantize lng, quantize lat)) seq"
    by (induction seq) auto
  then show ?thesis
    by (simp only: encodePolyline_def decode_encode_ints)
qed

lemma encode_example: "encodePolyline [(38.5, -120.2)] = ''_p~iF~ps|U''"
proof -
  have "encodePolyline [(38.5, -120.2)] = encode_from (0, 0) [(3850000, -12020000)]"
    by (simp add: encodePolyline_def quantize_def)
  also have "\<dots> = ''_p~iF~ps|U''" by code_simp
  finally show ?thesis .
qed

text \<open>
  C5. The round trip breaks on the one-point sequence \<open>(38.5, -120.2)\<close>: its encoding is
  \<open>_p~iF~ps|U\<close>, and decoding that returns \<open>(-12020000, 3850000)\<close>, the unscaled integers,
  which are not within \<open>1e-5\<close> of the input. The two statements on the empty sequence and the
  empty string hold.
\<close>

theorem round_trip_unscaled:
  "encodePolyline [(38.5, -120.2)] = ''_p~iF~ps|U''
   \<and> decode_polyline (encodePolyline [(38.5, -120.2)]) = Inr [(-12020000, 3850000)]
   \<and> \<not> round_trips [(38.5, -120.2)]
   \<and> encodePolyline [] = []
   \<and> decode_polyline [] = Inr []"
proof -
  have "\<not> round_trips [(38.5, -120.2)]"
    unfolding round_trips_def encode_example decode_example
    by (simp add: within_1e5_def as_reals_def)
  moreover have "decode_polyline (encodePolyline [(38.5, -120.2)]) = Inr [(-12020000, 3850000)]"
    unfolding encode_example by (rule decode_example)
  moreover have "encodePolyline [] = []" by (simp add: encodePolyline_def)
  moreover have "decode_polyline [] = Inr []" by (simp add: decode_polyline_def)
  ultimately show ?thesis using encode_example by blast
qed

subsection \<open>The haversine distance\<close>

lemma sin_sq_le_one: "(sin (x::real))\<^sup>2 \<le> 1"
  using abs_sin_le_one [of x] by (simp add: abs_square_le_1)

lemma sin_half_sq: "(sin (x / 2))\<^sup>2 = (1 - cos (x::real)) / 2"
  using cos_double_sin [of "x / 2"] by simp

lemma haversine_a_bounds:
  "0 \<le> haversine_a lat1 lon1 lat2 lon2 \<and> haversine_a lat1 lon1 lat2 lon2 \<le> 1"
proof -
  define h where "h = (sin ((lat2 - lat1) / 2))\<^sup>2"
  define s where "s = (sin ((lon2 - lon1) / 2))\<^sup>2"
  define p where "p = cos lat1 * cos lat2"
  have a: "haversine_a lat1 lon1 lat2 lon2 = h + p * s"
    by (simp add: haversine_a_def h_def s_def p_def Let_def)
  have h: "0 \<le> h" "h \<le> 1" by (simp_all add: h_def sin_sq_le_one)
  have s: "0 \<le> s" "s \<le> 1" by (simp_all add: s_def sin_sq_le_one)
  have "cos (lat1 - lat2) = cos (lat2 - lat1)"
    using cos_minus [of "lat2 - lat1"] by simp
  moreover have "2 * h = 1 - cos (lat2 - lat1)"
    by (simp add: h_def sin_half_sq)
  ultimately have p: "p = (1 - 2 * h + cos (lat1 + lat2)) / 2"
    by (simp add: p_def cos_times_cos)
  have c: "- 1 \<le> cos (lat1 + lat2)" "cos (lat1 + lat2) \<le> 1" by simp_all
  have p2: "2 * p = 1 - 2 * h + cos (lat1 + lat2)" using p by simp
  have pl: "- h \<le> p" using p2 c(1) by linarith
  have pu: "p \<le> 1 - h" using p2 c(2) by linarith
  have "- h * s \<le> p * s" using pl s(1) by (intro mult_right_mono) simp_all
  moreover have "h * s \<le> h" using h(1) s(2) by (simp add: mult_left_le)
  ultimately have lower: "0 \<le> h + p * s" by linarith
  have "p * s \<le> (1 - h) * s" using pu s(1) by (intro mult_right_mono) simp_all
  moreover have "(1 - h) * s \<le> 1 - h" using h(2) s(2) by (simp add: mult_left_le)
  ultimately have upper: "h + p * s \<le> 1" by linarith
  show ?thesis using a lower upper by simp
qed

lemma calculate_distance_eq: "calculate_distance p q = Inr (haversine_miles p q)"
proof -
  obtain lat1 lon1 lat2 lon2 where pq: "p = (lat1, lon1)" "q = (lat2, lon2)"
    by (cases p, cases q) auto
  define a where "a = haversine_a (radians lat1) (radians lon1) (radians lat2) (radians lon2)"
  have a: "0 \<le> a" "a \<le> 1" using haversine_a_bounds by (simp_all add: a_def)
  then have "0 \<le> sqrt a" "sqrt a \<le> 1" by simp_all
  then have "\<not> sqrt a < - 1" "\<not> 1 < sqrt a" by linarith+
  then show ?thesis
    using a by (simp add: calculate_distance_def pq py_sqrt_def py_asin_def haversine_miles_def
        Let_def flip: a_def)
qed

lemma haversine_miles_nonneg: "0 \<le> haversine_miles p q"
proof -
  have "0 \<le> arcsin (sqrt (haversine_a a b c d))" for a b c d
    using haversine_a_bounds [of a b c d] by (intro arcsin_nonneg) simp
  then show ?thesis by (simp add: haversine_miles_def)
qed

lemma haversine_a_sym: "haversine_a lat1 lon1 lat2 lon2 = haversine_a lat2 lon2 lat1 lon1"
proof -
  have "(sin ((x - y) / 2))\<^sup>2 = (sin ((y - x) / 2))\<^sup>2" for x y :: real
  proof -
    have "(x - y) / 2 = - ((y - x) / 2)" by (simp add: field_simps)
    then have "sin ((x - y) / 2) = - sin ((y - x) / 2)"
      by (simp only: sin_minus)
    then show ?thesis by simp
  qed
  then show ?thesis by (simp add: haversine_a_def Let_def mult.commute)
qed

lemma haversine_miles_sym: "haversine_miles p q = haversine_miles q p"
  by (simp add: haversine_miles_def haversine_a_sym)

lemma haversine_miles_same: "haversine_miles p p = 0"
  by (simp add: haversine_miles_def haversine_a_def)

text \<open>
  C9. \<open>calculate_distance\<close> never raises, is symmetric in its two points, and is 0 from a
  point to itself.
\<close>

theorem calculate_distance_symmetric_zero:
  "calculate_distance a b = calculate_distance b a \<and> calculate_distance a a = Inr 0"
  by (simp add: calculate_distance_eq haversine_miles_sym [of a b] haversine_miles_same)

subsection \<open>The loop that places the stops\<close>

lemma stop_body_mpg_zero:
  "mpg self = 0 \<Longrightarrow> stop_body self rs s e n bp pv i st = Inl ZeroDivisionError"
  by (cases st) (simp add: stop_body_def calculate_distance_eq py_div_def Let_def)

lemma stop_body_Inr:
  assumes "mpg self \<noteq> 0"
  shows "\<exists>stop. stop_body self rs s e n bp pv i (stops, c, pos)
            = Inr (stops @ [stop], c + cost stop,
                   interpolate_point s e ((real i + 1) / (real_of_int n + 1)))
          \<and> distance_from_previous stop
              = haversine_miles pos (interpolate_point s e ((real i + 1) / (real_of_int n + 1)))
          \<and> fuel_needed stop = distance_from_previous stop / mpg self
          \<and> (station_latitude (station stop), station_longitude (station stop))
              = interpolate_point s e ((real i + 1) / (real_of_int n + 1))"
  using assms
  by (simp add: stop_body_def calculate_distance_eq py_div_def Let_def)

lemma for_range_mpg_zero:
  "mpg self = 0 \<Longrightarrow> is \<noteq> [] \<Longrightarrow>
   for_range (stop_body self rs s e n bp pv) is st = Inl ZeroDivisionError"
  by (cases "is") (simp_all add: stop_body_mpg_zero)

lemma for_range_stops:
  assumes "mpg self \<noteq> 0"
  shows "\<exists>new c' pos'. for_range (stop_body self rs s e n bp pv) is (stops, c, pos)
            = Inr (stops @ new, c', pos')
          \<and> length new = length is
          \<and> (\<forall>stop \<in> set new. 0 \<le> distance_from_previous stop)"
proof (induction "is" arbitrary: stops c pos)
  case Nil
  then show ?case by simp
next
  case (Cons i rest)
  from stop_body_Inr [OF assms, of rs s e n bp pv i stops c pos]
  obtain stop where
    body: "stop_body self rs s e n bp pv i (stops, c, pos)
            = Inr (stops @ [stop], c + cost stop,
                   interpolate_point s e ((real i + 1) / (real_of_int n + 1)))"
    and d: "distance_from_previous stop
              = haversine_miles pos (interpolate_point s e ((real i + 1) / (real_of_int n + 1)))"
    by blast
  from Cons.IH [of "stops @ [stop]" "c + cost stop"
      "interpolate_point s e ((real i + 1) / (real_of_int n + 1))"]
  obtain new c' pos' where
    rest: "for_range (stop_body self rs s e n bp pv) rest
             (stops @ [stop], c + cost stop,
              interpolate_point s e ((real i + 1) / (real_of_int n + 1)))
           = Inr ((stops @ [stop]) @ new, c', pos')"
    and len: "length new = length rest"
    and nn: "\<forall>stop \<in> set new. 0 \<le> distance_from_previous stop"
    by blast
  have "for_range (stop_body self rs s e n bp pv) (i # rest) (stops, c, pos)
        = Inr (stops @ (stop # new), c', pos')"
    using body rest by simp
  moreover have "length (stop # new) = length (i # rest)" using len by simp
  moreover have "\<forall>x \<in> set (stop # new). 0 \<le> distance_from_previous x"
    using nn d haversine_miles_nonneg by simp
  ultimately show ?case by blast
qed

subsection \<open>The number of stops\<close>

lemma ceiling_ratio_small:
  assumes "0 < d" "0 < m" "d \<le> m"
  shows "\<lceil>d / m\<rceil> = (1::int)"
proof -
  have "0 < d / m" "d / m \<le> 1" using assms by simp_all
  then show ?thesis by (simp add: ceiling_eq_iff)
qed

lemma ceiling_ratio_large:
  assumes "0 < m" "m < d"
  shows "(2::int) \<le> \<lceil>d / m\<rceil>"
proof -
  have "1 < d / m" using assms by simp
  then have "1 < \<lceil>d / m\<rceil>" by (simp add: less_ceiling_iff)
  then show ?thesis by simp
qed

lemma find_optimal_short:
  assumes "haversine_miles s e \<le> max_range self" "mpg self \<noteq> 0"
  shows "find_optimal_fuel_stops self rs s e =
     Inr \<lparr>fuel_stops = [],
          summary = \<lparr>total_distance_miles = py_round2 (haversine_miles s e),
                     total_fuel_gallons = py_round2 (haversine_miles s e / mpg self),
                     total_cost = 0,
                     number_of_stops = 0\<rparr>\<rparr>"
  using assms by (simp add: find_optimal_fuel_stops_def calculate_distance_eq py_div_def)

lemma find_optimal_short_mpg_zero:
  assumes "haversine_miles s e \<le> max_range self" "mpg self = 0"
  shows "find_optimal_fuel_stops self rs s e = Inl ZeroDivisionError"
  using assms by (simp add: find_optimal_fuel_stops_def calculate_distance_eq py_div_def)

lemma find_optimal_long:
  assumes "max_range self < haversine_miles s e" "max_range self \<noteq> 0" "mpg self \<noteq> 0"
  shows "\<exists>plan. find_optimal_fuel_stops self rs s e = Inr plan
          \<and> length (fuel_stops plan) = nat (\<lceil>haversine_miles s e / max_range self\<rceil> - 1)
          \<and> number_of_stops (summary plan) = int (length (fuel_stops plan))
          \<and> (\<forall>stop \<in> set (fuel_stops plan). 0 \<le> distance_from_previous stop)"
proof -
  let ?n = "\<lceil>haversine_miles s e / max_range self\<rceil> - 1"
  let ?bp = "if rs \<noteq> [] then retail_price (hd rs) else 3.50"
  from for_range_stops [OF assms(3), of rs s e ?n ?bp "0.5" "[0 ..< nat ?n]" "[]" 0 s]
  obtain new c' pos' where
    loop: "for_range (stop_body self rs s e ?n ?bp 0.5) [0 ..< nat ?n] ([], 0, s)
            = Inr (new, c', pos')"
    and len: "length new = nat ?n"
    and nn: "\<forall>stop \<in> set new. 0 \<le> distance_from_previous stop"
    by auto
  have "find_optimal_fuel_stops self rs s e =
      Inr \<lparr>fuel_stops = new,
           summary = \<lparr>total_distance_miles = py_round2 (haversine_miles s e),
                      total_fuel_gallons = py_round2 (sum_list (map fuel_needed new)),
                      total_cost = py_round2 c',
                      number_of_stops = int (length new)\<rparr>\<rparr>"
    using assms(1,2) loop
    by (simp add: find_optimal_fuel_stops_def calculate_distance_eq py_div_def Let_def)
  then show ?thesis using len nn by simp
qed

subsection \<open>Distances along the equator and along a meridian\<close>

lemma pi_ge_3: "3 \<le> pi"
proof -
  have "sin (pi / 6) \<le> pi / 6" by (rule sin_x_le_x) simp
  then show ?thesis by (simp add: sin_30)
qed

lemma arcsin_sqrt_sin_sq:
  assumes "\<bar>t\<bar> \<le> pi / 2"
  shows "arcsin (sqrt ((sin t)\<^sup>2)) = \<bar>t\<bar>"
proof (cases "0 \<le> t")
  case True
  with assms have "0 \<le> sin t" by (intro sin_ge_zero) (use pi_ge_zero in linarith)+
  with True assms show ?thesis by (simp add: arcsin_sin)
next
  case False
  with assms have "0 \<le> sin (- t)" by (intro sin_ge_zero) (use pi_ge_zero in linarith)+
  then have "\<bar>sin t\<bar> = sin (- t)" by simp
  moreover have "arcsin (sin (- t)) = - t" using False assms by (intro arcsin_sin) linarith+
  ultimately show ?thesis using False by simp
qed

lemma haversine_miles_meridian:
  assumes "\<bar>lat2 - lat1\<bar> \<le> 180"
  shows "haversine_miles (lat1, lon) (lat2, lon) = 3959 * (\<bar>lat2 - lat1\<bar> * pi / 180)"
proof -
  let ?t = "(radians lat2 - radians lat1) / 2"
  have t: "?t = (lat2 - lat1) * pi / 360" by (simp add: radians_def field_simps)
  have "\<bar>(lat2 - lat1) * pi / 360\<bar> = \<bar>lat2 - lat1\<bar> * pi / 360"
    by (simp add: abs_mult)
  also have "\<dots> \<le> 180 * pi / 360"
    using assms by (intro divide_right_mono mult_right_mono) simp_all
  finally have b: "\<bar>?t\<bar> \<le> pi / 2" unfolding t by simp
  have "haversine_a (radians lat1) (radians lon) (radians lat2) (radians lon) = (sin ?t)\<^sup>2"
    by (simp add: haversine_a_def)
  then have "haversine_miles (lat1, lon) (lat2, lon) = 2 * \<bar>?t\<bar> * 3959"
    by (simp add: haversine_miles_def arcsin_sqrt_sin_sq [OF b] del: real_sqrt_abs)
  also have "\<dots> = 3959 * (\<bar>lat2 - lat1\<bar> * pi / 180)"
    unfolding t by (simp add: abs_mult)
  finally show ?thesis .
qed

lemma haversine_miles_equator:
  assumes "\<bar>lon2 - lon1\<bar> \<le> 180"
  shows "haversine_miles (0, lon1) (0, lon2) = 3959 * (\<bar>lon2 - lon1\<bar> * pi / 180)"
proof -
  let ?t = "(radians lon2 - radians lon1) / 2"
  have t: "?t = (lon2 - lon1) * pi / 360" by (simp add: radians_def field_simps)
  have "\<bar>(lon2 - lon1) * pi / 360\<bar> = \<bar>lon2 - lon1\<bar> * pi / 360"
    by (simp add: abs_mult)
  also have "\<dots> \<le> 180 * pi / 360"
    using assms by (intro divide_right_mono mult_right_mono) simp_all
  finally have b: "\<bar>?t\<bar> \<le> pi / 2" unfolding t by simp
  have "haversine_a (radians 0) (radians lon1) (radians 0) (radians lon2) = (sin ?t)\<^sup>2"
    by (simp add: haversine_a_def radians_def)
  then have "haversine_miles (0, lon1) (0, lon2) = 2 * \<bar>?t\<bar> * 3959"
    by (simp add: haversine_miles_def arcsin_sqrt_sin_sq [OF b] del: real_sqrt_abs)
  also have "\<dots> = 3959 * (\<bar>lon2 - lon1\<bar> * pi / 180)"
    unfolding t by (simp add: abs_mult)
  finally show ?thesis .
qed

lemma py_round2_close: "\<bar>py_round2 x - x\<bar> \<le> 1 / 200"
proof -
  define y where "y = x * 100"
  define f where "f = \<lfloor>y\<rfloor>"
  define d where "d = y - real_of_int f"
  define r where "r = (if d < 1 / 2 then f else if 1 / 2 < d then f + 1
                        else if even f then f else f + 1)"
  have d: "0 \<le> d" "d < 1" unfolding d_def f_def by linarith+
  have y: "y = real_of_int f + d" by (simp add: d_def)
  have p: "py_round2 x = real_of_int r / 100"
    unfolding py_round2_def Let_def r_def d_def f_def y_def ..
  have "r = f \<and> d \<le> 1 / 2 \<or> r = f + 1 \<and> 1 / 2 \<le> d"
    unfolding r_def by auto
  then have "\<bar>real_of_int r - y\<bar> \<le> 1 / 2"
    using d y by auto
  moreover have "x = y / 100" by (simp add: y_def)
  ultimately show ?thesis unfolding p by (simp add: abs_if split: if_splits)
qed

lemma py_round2_small: "0 \<le> x \<Longrightarrow> x < 1 / 200 \<Longrightarrow> py_round2 x = 0"
proof -
  assume a: "0 \<le> x" "x < 1 / 200"
  then have "\<lfloor>x * 100\<rfloor> = 0" by (simp add: floor_eq_iff)
  with a show ?thesis by (simp add: py_round2_def Let_def)
qed

lemma find_optimal_long_mpg_zero:
  assumes "max_range self < haversine_miles s e" "0 < max_range self" "mpg self = 0"
  shows "find_optimal_fuel_stops self rs s e = Inl ZeroDivisionError"
proof -
  let ?n = "\<lceil>haversine_miles s e / max_range self\<rceil> - 1"
  have "2 \<le> \<lceil>haversine_miles s e / max_range self\<rceil>"
    using assms(1,2) by (intro ceiling_ratio_large)
  then have "[0 ..< nat ?n] \<noteq> []" by simp
  then have "for_range (stop_body self rs s e ?n bp pv) [0 ..< nat ?n] st = Inl ZeroDivisionError"
    for bp pv st
    using assms(3) by (intro for_range_mpg_zero)
  then show ?thesis
    using assms(1,2)
    by (simp add: find_optimal_fuel_stops_def calculate_distance_eq py_div_def Let_def)
qed

lemma find_optimal_negative_range:
  assumes "max_range self < 0"
  shows "find_optimal_fuel_stops self rs s e =
     Inr \<lparr>fuel_stops = [],
          summary = \<lparr>total_distance_miles = py_round2 (haversine_miles s e),
                     total_fuel_gallons = 0,
                     total_cost = 0,
                     number_of_stops = 0\<rparr>\<rparr>"
proof -
  let ?n = "\<lceil>haversine_miles s e / max_range self\<rceil> - 1"
  have "haversine_miles s e / max_range self \<le> 0"
    using assms haversine_miles_nonneg [of s e] by (simp add: divide_nonneg_neg)
  then have "\<lceil>haversine_miles s e / max_range self\<rceil> \<le> 0"
    by (simp add: ceiling_le_iff)
  then have "[0 ..< nat ?n] = []" by simp
  moreover have "\<not> haversine_miles s e \<le> max_range self"
    using assms haversine_miles_nonneg [of s e] by linarith
  moreover have "py_round2 0 = 0" by (simp add: py_round2_small)
  ultimately show ?thesis
    using assms
    by (simp add: find_optimal_fuel_stops_def calculate_distance_eq py_div_def Let_def)
qed

lemma find_optimal_zero_range:
  assumes "max_range self = 0" "0 < haversine_miles s e"
  shows "find_optimal_fuel_stops self rs s e = Inl ZeroDivisionError"
  using assms
  by (simp add: find_optimal_fuel_stops_def calculate_distance_eq py_div_def Let_def)

text \<open>
  C2. On a route of positive length with a positive range, the planner returns a plan
  whenever \<open>mpg\<close> is not zero (with \<open>mpg = 0\<close> it raises \<open>ZeroDivisionError\<close> and reports
  nothing); every plan it returns reports \<open>max(0, ceil(total_distance / max_range) - 1)\<close>
  stops, which is also the length of the stop list; that number is 0 exactly when the
  distance is at most the range, and \<open>ceil(total_distance / max_range) - 1\<close> is at least 1
  otherwise.
\<close>

theorem number_of_stops_formula:
  assumes "0 < haversine_miles s e" and "0 < max_range self"
  shows "(mpg self \<noteq> 0 \<longrightarrow> (\<exists>plan. find_optimal_fuel_stops self rs s e = Inr plan))
       \<and> (\<forall>plan. find_optimal_fuel_stops self rs s e = Inr plan \<longrightarrow>
             number_of_stops (summary plan)
               = max 0 (\<lceil>haversine_miles s e / max_range self\<rceil> - 1)
           \<and> int (length (fuel_stops plan)) = number_of_stops (summary plan)
           \<and> (number_of_stops (summary plan) = 0
                \<longleftrightarrow> haversine_miles s e \<le> max_range self))
       \<and> (max_range self < haversine_miles s e
             \<longrightarrow> 1 \<le> \<lceil>haversine_miles s e / max_range self\<rceil> - 1)"
proof (cases "haversine_miles s e \<le> max_range self")
  case short: True
  have c: "\<lceil>haversine_miles s e / max_range self\<rceil> = 1"
    using assms short by (intro ceiling_ratio_small)
  show ?thesis
  proof (cases "mpg self = 0")
    case True
    then show ?thesis using short find_optimal_short_mpg_zero [OF short True, of rs] by simp
  next
    case False
    then show ?thesis using short c find_optimal_short [OF short False, of rs] by simp
  qed
next
  case long: False
  then have lt: "max_range self < haversine_miles s e" by simp
  have c: "2 \<le> \<lceil>haversine_miles s e / max_range self\<rceil>"
    using assms(2) lt by (intro ceiling_ratio_large)
  show ?thesis
  proof (cases "mpg self = 0")
    case True
    then show ?thesis
      using long c find_optimal_long_mpg_zero [OF lt assms(2) True, of rs] by simp
  next
    case False
    from find_optimal_long [OF lt _ False, of rs] assms(2)
    obtain plan where
      p: "find_optimal_fuel_stops self rs s e = Inr plan"
      and len: "length (fuel_stops plan) = nat (\<lceil>haversine_miles s e / max_range self\<rceil> - 1)"
      and num: "number_of_stops (summary plan) = int (length (fuel_stops plan))"
      by auto
    define k where "k = \<lceil>haversine_miles s e / max_range self\<rceil> - 1"
    have k: "1 \<le> k" using c by (simp add: k_def)
    have n: "number_of_stops (summary plan) = k"
      using num len k by (simp add: k_def)
    have "max 0 k = k" "k \<noteq> 0" using k by simp_all
    then show ?thesis
      unfolding p k_def [symmetric] using long k n num by simp
  qed
qed

lemma ten_degrees_miles:
  "haversine_miles (0, 0) (0, 10) = 3959 * (10 * pi / 180)"
  using haversine_miles_equator [of 10 0] by simp

lemma ten_degrees_one_stop:
  "\<lceil>haversine_miles (0, 0) (0, 10) / 500\<rceil> - 1 = 1"
proof -
  have "1 < 3959 * (10 * pi / 180) / 500" "3959 * (10 * pi / 180) / 500 \<le> 2"
    using pi_ge_3 pi_less_4 by simp_all
  then have "\<lceil>3959 * (10 * pi / 180) / 500\<rceil> = 2"
    by (simp add: ceiling_eq_iff)
  then show ?thesis by (simp add: ten_degrees_miles)
qed

theorem number_of_stops_formula_witness:
  "0 < haversine_miles (0, 0) (0, 10)
   \<and> 0 < max_range \<lparr>max_range = 500, mpg = 10\<rparr>
   \<and> (\<exists>plan. find_optimal_fuel_stops \<lparr>max_range = 500, mpg = 10\<rparr> [] (0, 0) (0, 10) = Inr plan
         \<and> number_of_stops (summary plan) = 1
         \<and> length (fuel_stops plan) = 1)"
proof -
  have d: "0 < haversine_miles (0, 0) (0, 10)"
    by (simp add: ten_degrees_miles)
  have r: "0 < max_range \<lparr>max_range = 500, mpg = 10\<rparr>" by simp
  from number_of_stops_formula [OF d r, of "[]"] ten_degrees_one_stop
  show ?thesis using d by auto
qed

subsection \<open>Routes within range\<close>

text \<open>
  C4, as the source has it. When the distance is at most the range and \<open>mpg\<close> is not zero,
  the planner returns an empty stop list, zero stops, a total cost of 0, and as total fuel
  \<open>total_distance / mpg\<close> rounded to two decimals, which is within 0.005 of the quotient.
  A route from a point to itself is such a route whenever the range is not negative.
\<close>

theorem within_range_plan:
  assumes "haversine_miles s e \<le> max_range self" and "mpg self \<noteq> 0"
  shows "find_optimal_fuel_stops self rs s e =
           Inr \<lparr>fuel_stops = [],
                summary = \<lparr>total_distance_miles = py_round2 (haversine_miles s e),
                           total_fuel_gallons = py_round2 (haversine_miles s e / mpg self),
                           total_cost = 0,
                           number_of_stops = 0\<rparr>\<rparr>
         \<and> \<bar>py_round2 (haversine_miles s e / mpg self) - haversine_miles s e / mpg self\<bar>
             \<le> 1 / 200"
  using find_optimal_short [OF assms] py_round2_close by simp

lemma short_hop_miles:
  "haversine_miles (0, 0) (0, 0.0005) = 3959 * (0.0005 * pi / 180)"
  using haversine_miles_equator [of "0.0005" 0] by simp

lemma short_hop_bounds:
  "0 < haversine_miles (0, 0) (0, 0.0005) / 10" "haversine_miles (0, 0) (0, 0.0005) / 10 < 1 / 200"
  unfolding short_hop_miles using pi_less_4 pi_gt_zero by simp_all

theorem within_range_plan_witness:
  "haversine_miles (0, 0) (0, 0.0005) \<le> max_range \<lparr>max_range = 500, mpg = 10\<rparr>
   \<and> mpg \<lparr>max_range = 500, mpg = 10\<rparr> \<noteq> 0
   \<and> find_optimal_fuel_stops \<lparr>max_range = 500, mpg = 10\<rparr> [] (0, 0) (0, 0.0005) =
         Inr \<lparr>fuel_stops = [],
              summary = \<lparr>total_distance_miles = py_round2 (haversine_miles (0, 0) (0, 0.0005)),
                         total_fuel_gallons = 0,
                         total_cost = 0,
                         number_of_stops = 0\<rparr>\<rparr>"
proof -
  have d: "haversine_miles (0, 0) (0, 0.0005) \<le> max_range \<lparr>max_range = 500, mpg = 10\<rparr>"
    using short_hop_bounds(2) by simp
  have m: "mpg \<lparr>max_range = 500, mpg = 10\<rparr> \<noteq> 0" by simp
  have z: "py_round2 (haversine_miles (0, 0) (0, 0.0005) / 10) = 0"
    using short_hop_bounds by (intro py_round2_small) simp_all
  from within_range_plan [OF d m, of "[]"] show ?thesis
    using d z by simp
qed

text \<open>
  C4 as stated fails on a hop of 0.0005 degrees along the equator with \<open>mpg = 10\<close>: the
  quotient \<open>total_distance / mpg\<close> is positive and the planner reports a total fuel of 0.
\<close>

theorem within_range_counterexample:
  "\<not> short_route_as_specified \<lparr>max_range = 500, mpg = 10\<rparr> [] (0, 0) (0, 0.0005)"
proof -
  have d: "haversine_miles (0, 0) (0, 0.0005) \<le> max_range \<lparr>max_range = 500, mpg = 10\<rparr>"
    using short_hop_bounds(2) by simp
  have z: "py_round2 (haversine_miles (0, 0) (0, 0.0005) / 10) = 0"
    using short_hop_bounds by (intro py_round2_small) simp_all
  show ?thesis
    using find_optimal_short [OF d, of "[]"] z short_hop_bounds(1)
    by (simp add: short_route_as_specified_def)
qed

subsection \<open>Settings that are not positive\<close>

text \<open>
  C7, as the source has it. Neither \<open>__init__\<close> nor \<open>find_optimal_fuel_stops\<close> looks at the
  sign of \<open>max_range\<close> or \<open>mpg\<close>, and no error of the planner is a configuration error.
  With a negative range the planner returns a plan with no stop and zero fuel and cost,
  whatever \<open>mpg\<close> is. With a negative \<open>mpg\<close> and a positive range it returns a plan. With
  \<open>mpg = 0\<close> and a range that is not negative, and with a range of 0 on a route of positive
  length, the division itself raises \<open>ZeroDivisionError\<close>.
\<close>

theorem nonpositive_settings:
  "(max_range self < 0 \<longrightarrow>
      find_optimal_fuel_stops self rs s e =
        Inr \<lparr>fuel_stops = [],
             summary = \<lparr>total_distance_miles = py_round2 (haversine_miles s e),
                        total_fuel_gallons = 0,
                        total_cost = 0,
                        number_of_stops = 0\<rparr>\<rparr>)
   \<and> (mpg self < 0 \<and> 0 < max_range self \<longrightarrow>
        (\<exists>plan. find_optimal_fuel_stops self rs s e = Inr plan))
   \<and> (mpg self = 0 \<and> 0 \<le> max_range self \<longrightarrow>
        find_optimal_fuel_stops self rs s e = Inl ZeroDivisionError)
   \<and> (max_range self = 0 \<and> 0 < haversine_miles s e \<longrightarrow>
        find_optimal_fuel_stops self rs s e = Inl ZeroDivisionError)"
proof (intro conjI impI)
  assume "max_range self < 0"
  then show "find_optimal_fuel_stops self rs s e =
        Inr \<lparr>fuel_stops = [],
             summary = \<lparr>total_distance_miles = py_round2 (haversine_miles s e),
                        total_fuel_gallons = 0,
                        total_cost = 0,
                        number_of_stops = 0\<rparr>\<rparr>"
    by (rule find_optimal_negative_range)
next
  assume a: "mpg self < 0 \<and> 0 < max_range self"
  show "\<exists>plan. find_optimal_fuel_stops self rs s e = Inr plan"
  proof (cases "haversine_miles s e \<le> max_range self")
    case True
    then show ?thesis using find_optimal_short [of s e self rs] a by simp
  next
    case False
    then show ?thesis using find_optimal_long [of self s e rs] a by auto
  qed
next
  assume a: "mpg self = 0 \<and> 0 \<le> max_range self"
  show "find_optimal_fuel_stops self rs s e = Inl ZeroDivisionError"
  proof (cases "haversine_miles s e \<le> max_range self")
    case True
    then show ?thesis using find_optimal_short_mpg_zero a by simp
  next
    case False
    show ?thesis
    proof (cases "max_range self = 0")
      case True
      with False show ?thesis by (intro find_optimal_zero_range) simp_all
    next
      case nz: False
      with False a show ?thesis by (intro find_optimal_long_mpg_zero) simp_all
    qed
  qed
next
  assume "max_range self = 0 \<and> 0 < haversine_miles s e"
  then show "find_optimal_fuel_stops self rs s e = Inl ZeroDivisionError"
    by (simp add: find_optimal_zero_range)
qed

lemma one_degree_miles: "haversine_miles (0, 0) (0, 1) = 3959 * (pi / 180)"
  using haversine_miles_equator [of 1 0] by simp

theorem nonpositive_settings_witness:
  "find_optimal_fuel_stops \<lparr>max_range = - 1, mpg = 0\<rparr> [] (0, 0) (0, 1) =
        Inr \<lparr>fuel_stops = [],
             summary = \<lparr>total_distance_miles = py_round2 (haversine_miles (0, 0) (0, 1)),
                        total_fuel_gallons = 0,
                        total_cost = 0,
                        number_of_stops = 0\<rparr>\<rparr>
   \<and> (\<exists>plan. find_optimal_fuel_stops \<lparr>max_range = 500, mpg = - 10\<rparr> [] (0, 0) (0, 1) = Inr plan)
   \<and> find_optimal_fuel_stops \<lparr>max_range = 500, mpg = 0\<rparr> [] (0, 0) (0, 1) = Inl ZeroDivisionError
   \<and> find_optimal_fuel_stops \<lparr>max_range = 0, mpg = 10\<rparr> [] (0, 0) (0, 1) = Inl ZeroDivisionError"
proof -
  have d: "0 < haversine_miles (0, 0) (0, 1)" by (simp add: one_degree_miles)
  show ?thesis
    using nonpositive_settings [of "\<lparr>max_range = - 1, mpg = 0\<rparr>" "[]" "(0, 0)" "(0, 1)"]
      nonpositive_settings [of "\<lparr>max_range = 500, mpg = - 10\<rparr>" "[]" "(0, 0)" "(0, 1)"]
      nonpositive_settings [of "\<lparr>max_range = 500, mpg = 0\<rparr>" "[]" "(0, 0)" "(0, 1)"]
      nonpositive_settings [of "\<lparr>max_range = 0, mpg = 10\<rparr>" "[]" "(0, 0)" "(0, 1)"]
      d
    by simp
qed

text \<open>
  C7 as stated fails for a range of 500 miles with \<open>mpg = -10\<close> on a hop of one degree: the
  planner returns a plan.
\<close>

theorem nonpositive_settings_counterexample:
  "\<not> isl (find_optimal_fuel_stops \<lparr>max_range = 500, mpg = - 10\<rparr> [] (0, 0) (0, 1))"
proof -
  have "haversine_miles (0, 0) (0, 1) \<le> max_range \<lparr>max_range = 500, mpg = - 10\<rparr>"
    using pi_less_4 by (simp add: one_degree_miles)
  from find_optimal_short [OF this, of "[]"] show ?thesis by simp
qed

subsection \<open>The legs of a plan\<close>

lemma stop_body_leg:
  assumes "mpg self \<noteq> 0"
  shows "\<exists>stop. stop_body self rs s e n bp pv i (stops, c, pos)
            = Inr (stops @ [stop], c + cost stop, stop_point s e n i)
          \<and> distance_from_previous stop = haversine_miles pos (stop_point s e n i)
          \<and> station_coords stop = stop_point s e n i"
  using stop_body_Inr [OF assms, of rs s e n bp pv i stops c pos]
  by (auto simp: stop_point_def station_coords_def)

lemma for_range_legs:
  assumes "mpg self \<noteq> 0"
  shows "\<exists>new c' pos'. for_range (stop_body self rs s e n bp pv) is (stops, c, pos)
            = Inr (stops @ new, c', pos')
          \<and> map station_coords new = map (stop_point s e n) is
          \<and> map distance_from_previous new = legs pos (map (stop_point s e n) is)"
proof (induction "is" arbitrary: stops c pos)
  case Nil
  then show ?case by simp
next
  case (Cons i rest)
  from stop_body_leg [OF assms, of rs s e n bp pv i stops c pos]
  obtain stop where
    body: "stop_body self rs s e n bp pv i (stops, c, pos)
            = Inr (stops @ [stop], c + cost stop, stop_point s e n i)"
    and d: "distance_from_previous stop = haversine_miles pos (stop_point s e n i)"
    and p: "station_coords stop = stop_point s e n i"
    by blast
  from Cons.IH [of "stops @ [stop]" "c + cost stop" "stop_point s e n i"]
  obtain new c' pos' where
    rest: "for_range (stop_body self rs s e n bp pv) rest
             (stops @ [stop], c + cost stop, stop_point s e n i)
           = Inr ((stops @ [stop]) @ new, c', pos')"
    and ps: "map station_coords new = map (stop_point s e n) rest"
    and ds: "map distance_from_previous new
              = legs (stop_point s e n i) (map (stop_point s e n) rest)"
    by blast
  have "for_range (stop_body self rs s e n bp pv) (i # rest) (stops, c, pos)
        = Inr (stops @ (stop # new), c', pos')"
    using body rest by simp
  moreover have "map station_coords (stop # new) = map (stop_point s e n) (i # rest)"
    using p ps by simp
  moreover have "map distance_from_previous (stop # new)
      = legs pos (map (stop_point s e n) (i # rest))"
    using d ds by simp
  ultimately show ?case by blast
qed

lemma legs_nonneg: "list_all (\<lambda>d. 0 \<le> d) (legs a ps)"
  by (induction ps arbitrary: a) (simp_all add: haversine_miles_nonneg)

lemma find_optimal_legs:
  assumes "max_range self < haversine_miles s e" "max_range self \<noteq> 0" "mpg self \<noteq> 0"
  defines "n \<equiv> \<lceil>haversine_miles s e / max_range self\<rceil> - 1"
  shows "\<exists>plan. find_optimal_fuel_stops self rs s e = Inr plan
          \<and> map station_coords (fuel_stops plan) = map (stop_point s e n) [0 ..< nat n]
          \<and> map distance_from_previous (fuel_stops plan)
              = legs s (map (stop_point s e n) [0 ..< nat n])"
proof -
  let ?bp = "if rs \<noteq> [] then retail_price (hd rs) else 3.50"
  from for_range_legs [OF assms(3), of rs s e n ?bp "0.5" "[0 ..< nat n]" "[]" 0 s]
  obtain new c' pos' where
    loop: "for_range (stop_body self rs s e n ?bp 0.5) [0 ..< nat n] ([], 0, s)
            = Inr (new, c', pos')"
    and ps: "map station_coords new = map (stop_point s e n) [0 ..< nat n]"
    and ds: "map distance_from_previous new = legs s (map (stop_point s e n) [0 ..< nat n])"
    by auto
  have "find_optimal_fuel_stops self rs s e =
      Inr \<lparr>fuel_stops = new,
           summary = \<lparr>total_distance_miles = py_round2 (haversine_miles s e),
                      total_fuel_gallons = py_round2 (sum_list (map fuel_needed new)),
                      total_cost = py_round2 c',
                      number_of_stops = int (length new)\<rparr>\<rparr>"
    using assms(1,2) loop
    by (simp add: find_optimal_fuel_stops_def calculate_distance_eq py_div_def Let_def n_def)
  then show ?thesis using ps ds by simp
qed

lemma final_leg_eq:
  "final_leg s e stops =
     Inr (haversine_miles (if stops = [] then s else station_coords (last stops)) e)"
  by (simp add: final_leg_def calculate_distance_eq station_coords_def)


subsection \<open>A route along a meridian\<close>

lemma stop_point_meridian:
  "stop_point (lat1, lon) (lat2, lon) n i
     = (lat1 + (lat2 - lat1) * ((real i + 1) / (real_of_int n + 1)), lon)"
  by (simp add: stop_point_def interpolate_point_def)

lemma meridian_step:
  assumes "\<bar>lat2 - lat1\<bar> \<le> 180" and "0 \<le> n"
  shows "haversine_miles (lat1 + (lat2 - lat1) * (real k / (real_of_int n + 1)), lon)
           (lat1 + (lat2 - lat1) * ((real k + 1) / (real_of_int n + 1)), lon)
         = 3959 * (\<bar>lat2 - lat1\<bar> * pi / 180) / (real_of_int n + 1)"
proof -
  let ?N = "real_of_int n + 1"
  have N: "1 \<le> ?N" using assms(2) by simp
  let ?a = "lat1 + (lat2 - lat1) * (real k / ?N)"
  let ?b = "lat1 + (lat2 - lat1) * ((real k + 1) / ?N)"
  have diff: "?b - ?a = (lat2 - lat1) / ?N"
    by (simp add: add_divide_distrib algebra_simps)
  have "\<bar>(lat2 - lat1) / ?N\<bar> = \<bar>lat2 - lat1\<bar> / ?N" using N by simp
  also have "\<dots> \<le> \<bar>lat2 - lat1\<bar>" using N by (simp add: field_simps mult_left_le)
  finally have small: "\<bar>?b - ?a\<bar> \<le> 180" using assms(1) diff by simp
  have "haversine_miles (?a, lon) (?b, lon) = 3959 * (\<bar>?b - ?a\<bar> * pi / 180)"
    by (rule haversine_miles_meridian [OF small])
  also have "\<bar>?b - ?a\<bar> = \<bar>lat2 - lat1\<bar> / ?N" using diff N by simp
  finally show ?thesis by simp
qed

lemma meridian_legs:
  assumes "\<bar>lat2 - lat1\<bar> \<le> 180" and "0 \<le> n"
  shows "legs (lat1 + (lat2 - lat1) * (real k / (real_of_int n + 1)), lon)
           (map (stop_point (lat1, lon) (lat2, lon) n) [k ..< k + m])
         = replicate m (3959 * (\<bar>lat2 - lat1\<bar> * pi / 180) / (real_of_int n + 1))"
proof (induction m arbitrary: k)
  case 0
  then show ?case by simp
next
  case (Suc m)
  have u: "[k ..< k + Suc m] = k # [Suc k ..< Suc k + m]"
    by (simp add: upt_conv_Cons)
  have r: "real (Suc k) = real k + 1" by simp
  show ?case
    unfolding u list.map legs.simps stop_point_meridian [of lat1 lon lat2 n k]
      meridian_step [OF assms]
    using Suc.IH [of "Suc k"] unfolding r by simp
qed

lemma meridian_plan_total:
  assumes far: "max_range self < haversine_miles (lat1, lon) (lat2, lon)"
    and pos: "0 < max_range self" and mpg: "mpg self \<noteq> 0"
    and lat: "\<bar>lat2 - lat1\<bar> \<le> 180"
  shows "\<exists>plan last_leg. find_optimal_fuel_stops self rs (lat1, lon) (lat2, lon) = Inr plan
          \<and> final_leg (lat1, lon) (lat2, lon) (fuel_stops plan) = Inr last_leg
          \<and> sum_list (map distance_from_previous (fuel_stops plan)) + last_leg
              = haversine_miles (lat1, lon) (lat2, lon)"
proof -
  let ?s = "(lat1, lon)" and ?e = "(lat2, lon)"
  define n where "n = \<lceil>haversine_miles ?s ?e / max_range self\<rceil> - 1"
  define L where "L = 3959 * (\<bar>lat2 - lat1\<bar> * pi / 180) / (real_of_int n + 1)"
  have "2 \<le> \<lceil>haversine_miles ?s ?e / max_range self\<rceil>"
    using pos far by (intro ceiling_ratio_large)
  then have n: "1 \<le> n" by (simp add: n_def)
  then have n0: "0 \<le> n" by simp
  from find_optimal_legs [OF far _ mpg, of rs] pos
  obtain plan where
    plan: "find_optimal_fuel_stops self rs ?s ?e = Inr plan"
    and ps: "map station_coords (fuel_stops plan) = map (stop_point ?s ?e n) [0 ..< nat n]"
    and ds: "map distance_from_previous (fuel_stops plan)
              = legs ?s (map (stop_point ?s ?e n) [0 ..< nat n])"
    by (auto simp: n_def)
  have "legs ?s (map (stop_point ?s ?e n) [0 ..< nat n]) = replicate (nat n) L"
    using meridian_legs [OF lat n0, where k = 0 and m = "nat n" and lon = lon]
    by (simp add: L_def)
  then have sum: "sum_list (map distance_from_previous (fuel_stops plan)) = real (nat n) * L"
    using ds by (simp add: sum_list_replicate)
  have len: "length (fuel_stops plan) = nat n"
    using arg_cong [OF ps, of length] by simp
  then have ne: "fuel_stops plan \<noteq> []" using n by auto
  have rn: "real (nat n) = real_of_int n" using n0 by simp
  have rn1: "real (nat n - 1) + 1 = real_of_int n" using n by (simp add: of_nat_diff)
  have "station_coords (last (fuel_stops plan)) = last (map station_coords (fuel_stops plan))"
    using ne by (simp add: last_map)
  also have "\<dots> = stop_point ?s ?e n (nat n - 1)"
    unfolding ps using n by (simp add: last_map)
  also have "\<dots> = (lat1 + (lat2 - lat1) * (real (nat n) / (real_of_int n + 1)), lon)"
    unfolding stop_point_meridian rn1 rn ..
  finally have lastp: "station_coords (last (fuel_stops plan))
      = (lat1 + (lat2 - lat1) * (real (nat n) / (real_of_int n + 1)), lon)" .
  have one: "(real (nat n) + 1) / (real_of_int n + 1) = 1" using n0 by simp
  have "haversine_miles (lat1 + (lat2 - lat1) * (real (nat n) / (real_of_int n + 1)), lon)
          (lat1 + (lat2 - lat1) * ((real (nat n) + 1) / (real_of_int n + 1)), lon) = L"
    unfolding L_def by (rule meridian_step [OF lat n0])
  then have fin: "final_leg ?s ?e (fuel_stops plan) = Inr L"
    unfolding one using ne lastp by (simp add: final_leg_eq)
  have "haversine_miles ?s ?e = 3959 * (\<bar>lat2 - lat1\<bar> * pi / 180)"
    by (rule haversine_miles_meridian [OF lat])
  also have "\<dots> = (real_of_int n + 1) * L"
  proof -
    have cancel: "N \<noteq> 0 \<Longrightarrow> N * (X / N) = X" for N X :: real by simp
    have "real_of_int n + 1 \<noteq> 0" using n0 by linarith
    then show ?thesis unfolding L_def by (rule cancel [symmetric])
  qed
  finally have total: "haversine_miles ?s ?e = real (nat n) * L + L"
    by (simp add: rn algebra_simps)
  show ?thesis using plan fin sum total by simp
qed


text \<open>
  C3, as the source has it. A plan with stops is returned exactly for a route longer than a
  positive range (with \<open>mpg\<close> not zero). In such a plan every stop's
  \<open>distance_from_previous\<close> is non-negative, and so is the final leg. The stops lie on the
  straight line between the two points in the latitude-longitude plane, so the legs add up to
  the total distance when the route runs along a meridian (equal longitudes, latitudes at
  most 180 degrees apart).
\<close>

theorem stop_distances:
  assumes "max_range self < haversine_miles s e" and "0 < max_range self" and "mpg self \<noteq> 0"
  shows "\<exists>plan last_leg.
           find_optimal_fuel_stops self rs s e = Inr plan
         \<and> final_leg s e (fuel_stops plan) = Inr last_leg
         \<and> fuel_stops plan \<noteq> []
         \<and> list_all (\<lambda>stop. 0 \<le> distance_from_previous stop) (fuel_stops plan)
         \<and> 0 \<le> last_leg
         \<and> (snd s = snd e \<and> \<bar>fst e - fst s\<bar> \<le> 180 \<longrightarrow>
              sum_list (map distance_from_previous (fuel_stops plan)) + last_leg
                = haversine_miles s e)"
proof -
  from find_optimal_long [OF assms(1) _ assms(3), of rs] assms(2)
  obtain plan where
    plan: "find_optimal_fuel_stops self rs s e = Inr plan"
    and len: "length (fuel_stops plan) = nat (\<lceil>haversine_miles s e / max_range self\<rceil> - 1)"
    and nn: "\<forall>stop \<in> set (fuel_stops plan). 0 \<le> distance_from_previous stop"
    by auto
  have "2 \<le> \<lceil>haversine_miles s e / max_range self\<rceil>"
    using assms(2,1) by (intro ceiling_ratio_large)
  with len have ne: "fuel_stops plan \<noteq> []" by auto
  obtain last_leg where
    fin: "final_leg s e (fuel_stops plan) = Inr last_leg" and l0: "0 \<le> last_leg"
    using final_leg_eq haversine_miles_nonneg by blast
  have "sum_list (map distance_from_previous (fuel_stops plan)) + last_leg = haversine_miles s e"
    if m: "snd s = snd e" "\<bar>fst e - fst s\<bar> \<le> 180"
  proof -
    obtain lat1 lat2 lon where se: "s = (lat1, lon)" "e = (lat2, lon)"
      using m(1) by (cases s, cases e) auto
    from meridian_plan_total [of self lat1 lon lat2 rs] assms m(2)
    show ?thesis using plan fin by (auto simp: se)
  qed
  then show ?thesis
    using plan fin ne nn l0 by (auto simp: list_all_iff)
qed

lemma ten_degrees_north_miles:
  "haversine_miles (0, 0) (10, 0) = 3959 * (10 * pi / 180)"
  using haversine_miles_meridian [of 10 0 0] by simp

theorem stop_distances_witness:
  "max_range \<lparr>max_range = 500, mpg = 10\<rparr> < haversine_miles (0, 0) (10, 0)
   \<and> 0 < max_range \<lparr>max_range = 500, mpg = 10\<rparr>
   \<and> mpg \<lparr>max_range = 500, mpg = 10\<rparr> \<noteq> 0
   \<and> (\<exists>plan last_leg.
           find_optimal_fuel_stops \<lparr>max_range = 500, mpg = 10\<rparr> [] (0, 0) (10, 0) = Inr plan
         \<and> final_leg (0, 0) (10, 0) (fuel_stops plan) = Inr last_leg
         \<and> fuel_stops plan \<noteq> []
         \<and> list_all (\<lambda>stop. 0 \<le> distance_from_previous stop) (fuel_stops plan)
         \<and> 0 \<le> last_leg
         \<and> sum_list (map distance_from_previous (fuel_stops plan)) + last_leg
              = haversine_miles (0, 0) (10, 0))"
proof -
  have far: "max_range \<lparr>max_range = 500, mpg = 10\<rparr> < haversine_miles (0, 0) (10, 0)"
    unfolding ten_degrees_north_miles using pi_ge_3 by simp
  have r: "0 < max_range \<lparr>max_range = 500, mpg = 10\<rparr>" by simp
  have m: "mpg \<lparr>max_range = 500, mpg = 10\<rparr> \<noteq> 0" by simp
  from stop_distances [OF far r m, of "[]"] show ?thesis
    using far by simp
qed

subsection \<open>A route that leaves the great circle\<close>

lemma quarter_turn_a:
  "haversine_a (radians 0) (radians 0) (radians 90) (radians 180) = (sin (pi / 4))\<^sup>2"
  by (simp add: haversine_a_def radians_def)

lemma first_leg_a:
  "haversine_a (radians 0) (radians 0) (radians 45) (radians 90) = (sin (pi / 4))\<^sup>2"
proof -
  have "(sin (pi / 8))\<^sup>2 = (1 - cos (pi / 4)) / 2"
    using sin_half_sq [of "pi / 4"] by simp
  then show ?thesis
    by (simp add: haversine_a_def radians_def sin_45 cos_45 power2_eq_square field_simps)
qed

lemma last_leg_a:
  "haversine_a (radians 45) (radians 90) (radians 90) (radians 180) = (sin (pi / 8))\<^sup>2"
  by (simp add: haversine_a_def radians_def)

lemma arcsin_quarter: "arcsin (sqrt ((sin (pi / 4))\<^sup>2)) = pi / 4"
  using arcsin_sqrt_sin_sq [of "pi / 4"] by simp

lemma arcsin_eighth: "arcsin (sqrt ((sin (pi / 8))\<^sup>2)) = pi / 8"
  using arcsin_sqrt_sin_sq [of "pi / 8"] by simp

lemma quarter_turn_miles: "haversine_miles (0, 0) (90, 180) = 3959 * pi / 2"
  unfolding haversine_miles_def fst_conv snd_conv quarter_turn_a arcsin_quarter by simp

lemma first_leg_miles: "haversine_miles (0, 0) (45, 90) = 3959 * pi / 2"
  unfolding haversine_miles_def fst_conv snd_conv first_leg_a arcsin_quarter by simp

lemma last_leg_miles: "haversine_miles (45, 90) (90, 180) = 3959 * pi / 4"
  unfolding haversine_miles_def fst_conv snd_conv last_leg_a arcsin_eighth by simp

lemma quarter_turn_stops:
  "\<lceil>haversine_miles (0, 0) (90, 180) / 5000\<rceil> - 1 = 1"
proof -
  have "1 < 3959 * pi / 2 / 5000" "3959 * pi / 2 / 5000 \<le> 2"
    using pi_ge_3 pi_less_4 by simp_all
  then have "\<lceil>3959 * pi / 2 / 5000\<rceil> = 2"
    by (simp add: ceiling_eq_iff)
  then show ?thesis by (simp add: quarter_turn_miles)
qed

text \<open>
  C3 as stated fails from \<open>(0, 0)\<close> to \<open>(90, 180)\<close> with a range of 5000 miles: the one stop
  is placed at \<open>(45, 90)\<close>, its distance from the start already equals the total distance,
  and the final leg adds a quarter of 3959 \<open>pi\<close> miles.
\<close>

theorem stop_distances_counterexample:
  "\<not> legs_match_total 1000 \<lparr>max_range = 5000, mpg = 10\<rparr> [] (0, 0) (90, 180)"
proof -
  let ?self = "\<lparr>max_range = 5000, mpg = 10\<rparr>"
  have far: "max_range ?self < haversine_miles (0, 0) (90, 180)"
    unfolding quarter_turn_miles using pi_ge_3 by simp
  have p: "stop_point (0, 0) (90, 180) 1 0 = (45, 90)"
    by (simp add: stop_point_def interpolate_point_def)
  from find_optimal_legs [OF far, of "[]"] quarter_turn_stops
  obtain plan where
    plan: "find_optimal_fuel_stops ?self [] (0, 0) (90, 180) = Inr plan"
    and ps: "map station_coords (fuel_stops plan) = [(45, 90)]"
    and ds: "map distance_from_previous (fuel_stops plan) = [3959 * pi / 2]"
    by (auto simp: p first_leg_miles)
  from ps obtain stop where st: "fuel_stops plan = [stop]" "station_coords stop = (45, 90)"
    by auto
  have fin: "final_leg (0, 0) (90, 180) (fuel_stops plan) = Inr (3959 * pi / 4)"
    by (simp add: final_leg_eq st last_leg_miles)
  have "1000 < 3959 * pi / 4" using pi_ge_3 by simp
  then show ?thesis
    using plan fin ds by (simp add: legs_match_total_def quarter_turn_miles)
qed

subsection \<open>Locations that are literal pairs, and locations without a comma\<close>

lemma split_on_nonempty: "split_on sep s \<noteq> []"
  by (induction s) (auto split: list.splits)

lemma split_on_no_sep: "sep \<notin> set s \<Longrightarrow> split_on sep s = [s]"
  by (induction s) auto

lemma split_on_length: "length (split_on sep s) = Suc (length (filter (\<lambda>c. c = sep) s))"
  by (induction s) (auto simp: split_on_nonempty split: list.splits)

lemma split_on_two_has_sep:
  assumes "split_on sep s = [a, b]"
  shows "sep \<in> set s"
proof (rule ccontr)
  assume "sep \<notin> set s"
  then have "split_on sep s = [s]" by (rule split_on_no_sep)
  with assms show False by simp
qed

lemma geocode_address_trace:
  "trace (snd (geocode_address ev a c s w)) = trace w
   \<or> trace (snd (geocode_address ev a c s w)) = trace w @ [HttpGet (query_of a c s)]"
  by (simp add: geocode_address_def Let_def split: option.splits reply.splits list.splits prod.splits)

text \<open>
  C6, as the source has it. A location with exactly one comma whose two parts, stripped,
  convert to floats is returned as that pair of floats, whatever their values, and the world
  is unchanged: nothing is sent to the provider and nothing is cached.
\<close>

theorem literal_pair_returned:
  assumes "split_on CHR '','' location = [a, b]"
    and "to_float ev (strip a) = Some x" and "to_float ev (strip b) = Some y"
  shows "geocode_location ev location w = (Some (x, y), w)"
proof -
  have "CHR '','' \<in> set location" using assms(1) by (rule split_on_two_has_sep)
  then have "parse_pair ev location = Some (x, y)"
    using assms by (simp add: parse_pair_def)
  then show ?thesis by (simp add: geocode_location_def)
qed

lemma split_example: "split_on CHR '','' ''91,200'' = [''91'', ''200'']"
  by simp

lemma float_91: "decimal_literal (strip ''91'') = Some 91"
  by (simp add: decimal_literal_def unsigned_decimal_def strip_def is_space_def is_digit_def)

lemma float_200: "decimal_literal (strip ''200'') = Some 200"
  by (simp add: decimal_literal_def unsigned_decimal_def strip_def is_space_def is_digit_def)

theorem literal_pair_returned_witness:
  "split_on CHR '','' ''91,200'' = [''91'', ''200'']
   \<and> to_float example_env (strip ''91'') = Some 91
   \<and> to_float example_env (strip ''200'') = Some 200
   \<and> geocode_location example_env ''91,200'' empty_world = (Some (91, 200), empty_world)"
proof -
  have a: "to_float example_env (strip ''91'') = Some 91"
    by (simp add: example_env_def float_91)
  have b: "to_float example_env (strip ''200'') = Some 200"
    by (simp add: example_env_def float_200)
  from literal_pair_returned [OF split_example a b, of empty_world] show ?thesis
    using split_example a b by simp
qed

text \<open>
  C6 as stated fails on \<open>91,200\<close>: the latitude 91 and the longitude 200 are out of range
  and the pair is returned.
\<close>

theorem literal_pair_counterexample:
  "\<not> returns_in_range example_env ''91,200'' empty_world"
proof -
  have "parse_pair example_env ''91,200'' = Some (91, 200)"
    using float_91 float_200 by (simp add: parse_pair_def example_env_def)
  then show ?thesis
    by (simp add: returns_in_range_def geocode_location_def)
qed

text \<open>
  C10. A location without a comma is answered \<open>None\<close> and leaves the world as it was, so
  no request is sent; whenever \<open>geocode_location\<close> adds anything to the record of events, the
  location contains a comma.
\<close>

theorem no_comma_no_request:
  "(CHR '','' \<notin> set location \<longrightarrow> geocode_location ev location w = (None, w))
   \<and> (trace (snd (geocode_location ev location w)) \<noteq> trace w \<longrightarrow> CHR '','' \<in> set location)"
proof -
  have none: "geocode_location ev location w = (None, w)" if "CHR '','' \<notin> set location"
    using that by (simp add: geocode_location_def parse_pair_def split_on_no_sep)
  have "CHR '','' \<in> set location"
    if changed: "trace (snd (geocode_location ev location w)) \<noteq> trace w"
  proof (rule ccontr)
    assume "CHR '','' \<notin> set location"
    then have "geocode_location ev location w = (None, w)" by (rule none)
    with changed show False by simp
  qed
  with none show ?thesis by blast
qed

lemma split_city_state: "split_on CHR '','' ''Chicago, IL'' = [''Chicago'', '' IL'']"
  by simp

lemma city_state_request:
  "trace (snd (geocode_location example_env ''Chicago, IL'' empty_world))
     = [HttpGet '', Chicago, IL, USA'']"
proof -
  have "decimal_literal (strip ''Chicago'') = None"
    by (simp add: decimal_literal_def unsigned_decimal_def strip_def is_space_def is_digit_def)
  then have p: "parse_pair example_env ''Chicago, IL'' = None"
    by (simp add: parse_pair_def example_env_def)
  have s: "strip ''Chicago'' = ''Chicago''" "strip '' IL'' = ''IL''"
    by (simp_all add: strip_def is_space_def)
  have "geocode_location example_env ''Chicago, IL'' empty_world
      = geocode_address example_env [] ''Chicago'' ''IL'' empty_world"
    using p s by (simp add: geocode_location_def)
  then show ?thesis
    by (simp add: geocode_address_def empty_world_def example_env_def query_of_def Let_def)
qed

theorem no_comma_no_request_witness:
  "CHR '','' \<notin> set ''Chicago''
   \<and> geocode_location example_env ''Chicago'' empty_world = (None, empty_world)
   \<and> trace (snd (geocode_location example_env ''Chicago, IL'' empty_world)) \<noteq> trace empty_world
   \<and> CHR '','' \<in> set ''Chicago, IL''"
proof -
  have a: "CHR '','' \<notin> set ''Chicago''" by simp
  have b: "trace (snd (geocode_location example_env ''Chicago, IL'' empty_world))
            \<noteq> trace empty_world"
    unfolding city_state_request by (simp add: empty_world_def)
  from no_comma_no_request [of "''Chicago''" example_env empty_world]
    no_comma_no_request [of "''Chicago, IL''" example_env empty_world]
  show ?thesis using a b by simp
qed

subsection \<open>The batch loop\<close>

lemma requests_append: "requests (xs @ ys) = requests xs @ requests ys"
  by (induction xs rule: requests.induct) simp_all

lemma delays_append: "delays (xs @ ys) = delays xs @ delays ys"
  by (induction xs rule: delays.induct) simp_all

lemma spaced_append: "spaced gap (xs @ ys) = (spaced gap xs \<and> spaced (gap_after gap xs) ys)"
  by (induction gap xs rule: spaced.induct) simp_all

lemma gap_after_append: "gap_after gap (xs @ ys) = gap_after (gap_after gap xs) ys"
  by (induction gap xs rule: gap_after.induct) simp_all

lemma key_a: "cache_key_of ''1 Main St'' ''Tulsa'' ''OK'' = ''geocode:1_main_st:tulsa:ok''"
  by code_simp

lemma key_b: "cache_key_of ''2 Oak Ave'' ''Tulsa'' ''OK'' = ''geocode:2_oak_ave:tulsa:ok''"
  by code_simp

text \<open>
  What one call of \<open>geocode_address\<close> does: a cached entry is returned and nothing else
  happens; otherwise exactly one request is sent, and its answer, if there is one, is cached.
\<close>

lemma geocode_address_hit:
  "cache w (cache_key_of a c s) = Some r \<Longrightarrow> geocode_address ev a c s w = (Some r, w)"
  by (simp add: geocode_address_def)

lemma geocode_address_miss:
  assumes "cache w (cache_key_of a c s) = None"
  shows "fst (geocode_address ev a c s w) = provider_answer ev (query_of a c s)"
    and "trace (snd (geocode_address ev a c s w)) = trace w @ [HttpGet (query_of a c s)]"
    and "cache (snd (geocode_address ev a c s w))
          = (case provider_answer ev (query_of a c s) of
               None \<Rightarrow> cache w
             | Some found \<Rightarrow> (cache w)(cache_key_of a c s \<mapsto> found))"
  using assms
  by (simp_all add: geocode_address_def provider_answer_def Let_def
      split: reply.splits list.splits option.splits prod.splits)

lemma geocode_address_requests:
  "trace (snd (geocode_address ev a c s w))
     = trace w @ (case cache w (cache_key_of a c s) of
                    None \<Rightarrow> [HttpGet (query_of a c s)] | Some hit \<Rightarrow> [])"
  by (cases "cache w (cache_key_of a c s)")
     (simp_all add: geocode_address_hit geocode_address_miss)

lemma geocode_address_cache:
  "cache (snd (geocode_address ev a c s w))
     = (case cache w (cache_key_of a c s) of
          Some hit \<Rightarrow> cache w
        | None \<Rightarrow>
            (case provider_answer ev (query_of a c s) of
               None \<Rightarrow> cache w
             | Some found \<Rightarrow> (cache w)(cache_key_of a c s \<mapsto> found)))"
  by (cases "cache w (cache_key_of a c s)")
     (simp_all add: geocode_address_hit geocode_address_miss)

lemma geocode_station_events:
  "\<exists>sv pz. trace (snd (geocode_station ev n i st (gs, w)))
         = trace w @ (case cache w (cache_key_of (address st) (city st) (state st)) of
                        None \<Rightarrow> [HttpGet (query_of (address st) (city st) (state st))]
                      | Some hit \<Rightarrow> []) @ sv @ pz
     \<and> (sv = [] \<or> (\<exists>nm. sv = [Save nm]))
     \<and> (pz = [] \<or> pz = [Sleep rate_limit_delay])
     \<and> ((\<forall>s. save_ok ev s) \<longrightarrow> pz = (if i + 1 < n then [Sleep rate_limit_delay] else []))"
proof -
  let ?pre = "case cache w (cache_key_of (address st) (city st) (state st)) of
                None \<Rightarrow> [HttpGet (query_of (address st) (city st) (state st))]
              | Some hit \<Rightarrow> []"
  obtain r w1 where ga: "geocode_address ev (address st) (city st) (state st) w = (r, w1)"
    by (cases "geocode_address ev (address st) (city st) (state st) w")
  have pre: "trace w1 = trace w @ ?pre"
    using geocode_address_requests [of ev "address st" "city st" "state st" w] ga by simp
  show ?thesis
  proof (cases r)
    case None
    then have "trace (snd (geocode_station ev n i st (gs, w)))
        = trace w @ ?pre @ [] @ (if i + 1 < n then [Sleep rate_limit_delay] else [])"
      using ga pre by (simp add: geocode_station_def Let_def)
    then show ?thesis by (intro exI conjI) (assumption | simp)+
  next
    case (Some p)
    obtain lat lon where p: "p = (lat, lon)" by (cases p)
    let ?st = "st\<lparr>latitude := Some lat, longitude := Some lon, geocoded := True\<rparr>"
    show ?thesis
    proof (cases "save_ok ev ?st")
      case True
      then have "trace (snd (geocode_station ev n i st (gs, w)))
          = trace w @ ?pre @ [Save (name ?st)]
              @ (if i + 1 < n then [Sleep rate_limit_delay] else [])"
        using ga pre Some p by (simp add: geocode_station_def Let_def)
      then show ?thesis by (intro exI conjI) (assumption | simp)+
    next
      case False
      then have "trace (snd (geocode_station ev n i st (gs, w))) = trace w @ ?pre @ [] @ []"
        using ga pre Some p by (simp add: geocode_station_def Let_def)
      with False show ?thesis by (intro exI conjI) (assumption | auto)+
    qed
  qed
qed

lemma geocode_station_cache:
  "cache (snd (geocode_station ev n i st (gs, w)))
     = cache (snd (geocode_address ev (address st) (city st) (state st) w))"
  by (simp add: geocode_station_def Let_def split: prod.splits option.splits)

lemma rate_limit_delay_pos: "0 \<le> rate_limit_delay"
  by (simp add: rate_limit_delay_def)

lemma block_requests:
  assumes "pre = [] \<or> pre = [HttpGet q]" "sv = [] \<or> (\<exists>nm. sv = [Save nm])"
    "pz = [] \<or> pz = [Sleep d]"
  shows "subseq (requests (pre @ sv @ pz)) [q]"
  using assms by (auto simp: requests_append)

lemma block_delays:
  assumes "pre = [] \<or> pre = [HttpGet q]" "sv = [] \<or> (\<exists>nm. sv = [Save nm])"
  shows "delays (pre @ sv @ pz) = delays pz"
  using assms by (auto simp: delays_append)

lemma block_spaced:
  assumes "pre = [] \<or> pre = [HttpGet q]" "sv = [] \<or> (\<exists>nm. sv = [Save nm])"
    "pz = [] \<or> pz = [Sleep rate_limit_delay]" "rested gap"
  shows "spaced gap (pre @ sv @ pz)"
  using assms by (auto simp: rested_def split: option.splits)

lemma block_rested:
  assumes "pre = [] \<or> pre = [HttpGet q]" "sv = [] \<or> (\<exists>nm. sv = [Save nm])"
    "rested gap"
  shows "rested (gap_after gap (pre @ sv @ [Sleep rate_limit_delay]))"
  using assms rate_limit_delay_pos by (auto simp: rested_def split: option.splits)

lemma block_requests_eq:
  assumes "sv = [] \<or> (\<exists>nm. sv = [Save nm])" "pz = [] \<or> pz = [Sleep d]"
  shows "requests (pre @ sv @ pz) = requests pre"
  using assms by (auto simp: requests_append)

lemma pre_cases:
  "(case hit of None \<Rightarrow> [HttpGet q] | Some r \<Rightarrow> []) = []
   \<or> (case hit of None \<Rightarrow> [HttpGet q] | Some r \<Rightarrow> []) = [HttpGet q]"
  by (cases hit) simp_all

lemma batch_loop_events:
  assumes "i + length sts = n"
  shows "\<exists>new. trace (snd (batch_loop ev n i sts (gs, w))) = trace w @ new
     \<and> requests new = uncached_queries ev (cache w) sts
     \<and> subseq (requests new) (map (\<lambda>st. query_of (address st) (city st) (state st)) sts)
     \<and> ((\<forall>s. save_ok ev s) \<longrightarrow>
          delays new = replicate (length sts - 1) rate_limit_delay
          \<and> (rested gap \<longrightarrow> spaced gap new))"
  using assms
proof (induction sts arbitrary: i gs w gap)
  case Nil
  then show ?case by simp
next
  case (Cons st rest)
  let ?q = "query_of (address st) (city st) (state st)"
  let ?key = "cache_key_of (address st) (city st) (state st)"
  let ?pre = "case cache w ?key of None \<Rightarrow> [HttpGet ?q] | Some hit \<Rightarrow> []"
  obtain gs1 w1 where step: "geocode_station ev n i st (gs, w) = (gs1, w1)"
    by (cases "geocode_station ev n i st (gs, w)")
  from geocode_station_events [of ev n i st gs w] step
  obtain sv pz where
    tr: "trace w1 = trace w @ ?pre @ sv @ pz"
    and sv: "sv = [] \<or> (\<exists>nm. sv = [Save nm])"
    and pz: "pz = [] \<or> pz = [Sleep rate_limit_delay]"
    and pz_ok: "(\<forall>s. save_ok ev s) \<longrightarrow> pz = (if i + 1 < n then [Sleep rate_limit_delay] else [])"
    by auto
  have pre: "?pre = [] \<or> ?pre = [HttpGet ?q]" by (rule pre_cases)
  have c1: "cache w1 = (case cache w ?key of
                          Some hit \<Rightarrow> cache w
                        | None \<Rightarrow>
                            (case provider_answer ev ?q of
                               None \<Rightarrow> cache w
                             | Some found \<Rightarrow> (cache w)(?key \<mapsto> found)))"
    using geocode_station_cache [of ev n i st gs w] step
    by (simp add: geocode_address_cache)
  let ?b = "?pre @ sv @ pz"
  have idx: "(i + 1) + length rest = n" using Cons.prems by simp
  from Cons.IH [OF idx, of gs1 w1 "gap_after gap ?b"]
  obtain new where
    tr': "trace (snd (batch_loop ev n (i + 1) rest (gs1, w1))) = trace w1 @ new"
    and req: "requests new = uncached_queries ev (cache w1) rest"
    and sub: "subseq (requests new) (map (\<lambda>st. query_of (address st) (city st) (state st)) rest)"
    and timed: "(\<forall>s. save_ok ev s) \<longrightarrow>
          delays new = replicate (length rest - 1) rate_limit_delay
          \<and> (rested (gap_after gap ?b) \<longrightarrow> spaced (gap_after gap ?b) new)"
    by blast
  have t: "trace (snd (batch_loop ev n i (st # rest) (gs, w))) = trace w @ (?b @ new)"
    using step tr tr' by simp
  have r: "requests (?b @ new) = uncached_queries ev (cache w) (st # rest)"
  proof -
    have "requests (?b @ new) = requests ?pre @ uncached_queries ev (cache w1) rest"
      using block_requests_eq [OF sv pz, of ?pre] req by (simp add: requests_append)
    then show ?thesis
      unfolding c1 by (cases "cache w ?key") (simp_all add: Let_def)
  qed
  have s: "subseq (requests (?b @ new))
      (map (\<lambda>st. query_of (address st) (city st) (state st)) (st # rest))"
  proof -
    have "subseq (requests ?b @ requests new)
      ([?q] @ map (\<lambda>st. query_of (address st) (city st) (state st)) rest)"
      using block_requests [OF pre sv pz] sub by (rule list_emb_append_mono)
    then show ?thesis by (simp add: requests_append)
  qed
  have d: "delays (?b @ new) = replicate (length (st # rest) - 1) rate_limit_delay
      \<and> (rested gap \<longrightarrow> spaced gap (?b @ new))" if ok: "\<forall>s. save_ok ev s"
  proof (cases "rest = []")
    case True
    then have "new = []" using tr' by simp
    moreover have "pz = []" using pz_ok ok True Cons.prems by simp
    ultimately show ?thesis
      using True block_delays [OF pre sv, of pz] block_spaced [OF pre sv pz]
      by (simp add: delays_append)
  next
    case False
    then have "i + 1 < n" using Cons.prems by (cases rest) auto
    then have pz': "pz = [Sleep rate_limit_delay]" using pz_ok ok by simp
    have dn: "delays new = replicate (length rest - 1) rate_limit_delay"
      using timed ok by blast
    have "delays (?b @ new) = rate_limit_delay # replicate (length rest - 1) rate_limit_delay"
      using block_delays [OF pre sv, of pz] pz' dn by (simp add: delays_append)
    also have "\<dots> = replicate (length (st # rest) - 1) rate_limit_delay"
      using False by (cases rest) simp_all
    finally have one: "delays (?b @ new) = replicate (length (st # rest) - 1) rate_limit_delay" .
    have two: "spaced gap (?b @ new)" if r: "rested gap"
    proof -
      have "rested (gap_after gap ?b)"
        unfolding pz' by (rule block_rested [OF pre sv r])
      then have "spaced (gap_after gap ?b) new" using timed ok by blast
      moreover have "spaced gap ?b" by (rule block_spaced [OF pre sv pz r])
      ultimately show ?thesis by (simp only: spaced_append [of gap ?b new])
    qed
    from one two show ?thesis by blast
  qed
  from t r s d show ?case by blast
qed


text \<open>
  C8, as the source has it. The requests of a batch are exactly the queries of those
  not-yet-geocoded stations that are not in the cache when their turn comes, in submission
  order. When no \<open>save\<close> raises, the batch sleeps \<open>rate_limit_delay\<close> (1.1 seconds) after every
  not-yet-geocoded station but the last, whether the cache or the provider answered it, so
  that two consecutive requests are at least 1.1 seconds of sleep apart.
\<close>

theorem batch_rate_limit:
  "trace (snd (geocode_fuel_stations ev stations w)) = trace w @ batch_events ev stations w
   \<and> requests (batch_events ev stations w)
        = uncached_queries ev (cache w) (filter (\<lambda>s. \<not> geocoded s) stations)
   \<and> subseq (requests (batch_events ev stations w))
        (map (\<lambda>st. query_of (address st) (city st) (state st))
           (filter (\<lambda>s. \<not> geocoded s) stations))
   \<and> ((\<forall>s. save_ok ev s) \<longrightarrow>
        delays (batch_events ev stations w)
          = replicate (length (filter (\<lambda>s. \<not> geocoded s) stations) - 1) rate_limit_delay
        \<and> spaced None (batch_events ev stations w))"
proof (cases "filter (\<lambda>s. \<not> geocoded s) stations = []")
  case True
  then have "geocode_fuel_stations ev stations w = (stations, w)"
    by (simp add: geocode_fuel_stations_def)
  then have "batch_events ev stations w = []" by (simp add: batch_events_def)
  with True \<open>geocode_fuel_stations ev stations w = (stations, w)\<close> show ?thesis by simp
next
  case False
  let ?todo = "filter (\<lambda>s. \<not> geocoded s) stations"
  have g: "geocode_fuel_stations ev stations w = batch_loop ev (length ?todo) 0 ?todo ([], w)"
    using False by (simp add: geocode_fuel_stations_def Let_def)
  have idx: "0 + length ?todo = length ?todo" by simp
  from batch_loop_events [OF idx, where ev = ev and gs = "[]" and w = w and gap = None]
  obtain new where
    tr: "trace (snd (batch_loop ev (length ?todo) 0 ?todo ([], w))) = trace w @ new"
    and req: "requests new = uncached_queries ev (cache w) ?todo"
    and sub: "subseq (requests new) (map (\<lambda>st. query_of (address st) (city st) (state st)) ?todo)"
    and timed: "(\<forall>s. save_ok ev s) \<longrightarrow>
          delays new = replicate (length ?todo - 1) rate_limit_delay
          \<and> (rested None \<longrightarrow> spaced None new)"
    by blast
  have "batch_events ev stations w = new"
    by (simp add: batch_events_def g tr)
  moreover have "rested None" by (simp add: rested_def)
  ultimately show ?thesis using g tr req sub timed by simp
qed

lemma float_lat: "decimal_literal ''36.15'' = Some 36.15"
  by (simp add: decimal_literal_def unsigned_decimal_def is_digit_def)

lemma float_lon: "decimal_literal ''-95.99'' = Some (- 95.99)"
  by (simp add: decimal_literal_def unsigned_decimal_def is_digit_def)

lemma answering_answer: "provider_answer answering_env q = Some (36.15, - 95.99)"
  by (simp add: provider_answer_def answering_env_def float_lat float_lon)

lemma answering_queries:
  "uncached_queries answering_env (cache empty_world) [station_a, station_b]
     = [''1 Main St, Tulsa, OK, USA'', ''2 Oak Ave, Tulsa, OK, USA'']"
  by (simp add: Let_def station_a_def station_b_def key_a key_b answering_answer
      empty_world_def query_of_def)

theorem batch_rate_limit_witness:
  "(\<forall>s. save_ok answering_env s)
   \<and> requests (batch_events answering_env [station_a, station_b] empty_world)
       = [''1 Main St, Tulsa, OK, USA'', ''2 Oak Ave, Tulsa, OK, USA'']
   \<and> delays (batch_events answering_env [station_a, station_b] empty_world) = [rate_limit_delay]
   \<and> spaced None (batch_events answering_env [station_a, station_b] empty_world)"
proof -
  have ok: "\<forall>s. save_ok answering_env s" by (simp add: answering_env_def)
  have todo: "filter (\<lambda>s. \<not> geocoded s) [station_a, station_b] = [station_a, station_b]"
    by (simp add: station_a_def station_b_def)
  from batch_rate_limit [of answering_env "[station_a, station_b]" empty_world] ok
  show ?thesis unfolding todo answering_queries by simp
qed

lemma answered_batch_events:
  "batch_events answering_env [station_a, station_b] empty_world
     = [HttpGet ''1 Main St, Tulsa, OK, USA'', Save ''A'', Sleep rate_limit_delay,
        HttpGet ''2 Oak Ave, Tulsa, OK, USA'', Save ''B'']"
  by (simp add: batch_events_def geocode_fuel_stations_def geocode_station_def
      geocode_address_def station_a_def station_b_def empty_world_def answering_env_def
      key_a key_b float_lat float_lon query_of_def Let_def)

lemma cached_batch_events:
  "batch_events example_env [station_a, station_b] cached_world
     = [Save ''A'', Sleep rate_limit_delay, Save ''B'']"
  by (simp add: batch_events_def geocode_fuel_stations_def geocode_station_def
      geocode_address_def station_a_def station_b_def cached_world_def example_env_def
      key_a key_b Let_def)

text \<open>
  C8 as stated fails on a batch of two stations that are both in the cache: no request is
  sent and the batch still sleeps 1.1 seconds between the two.
\<close>

theorem batch_rate_limit_counterexample:
  "\<not> cache_hits_undelayed example_env [station_a, station_b] cached_world"
  by (simp add: cache_hits_undelayed_def cached_batch_events)

end
